theory Spec2Isabelle
  imports Complex_Main "HOL-Library.Multiset" "HOL-Library.Log_Nat"
begin

text \<open>
  A model of the Uniswap dashboard: the four sections of the page (src/index.js) with the
  aggregation of swaps into buckets of 100, and the earlier variants of the swap section
  kept in .history/src/App_20240914233132.js (buckets of 10 minutes, buckets of 100 swaps
  labelled by their first and last swap, swaps loaded page by page). The functions of the
  language and of date-fns that the code calls are modelled first; the host's time zone and
  locale are parameters.
\<close>

section \<open>JavaScript numbers\<close>

text \<open>
  The dashboard computes with JavaScript Numbers. The model keeps the special values
  and reads every finite double as the real number it stands for. The operations of this
  section are exact: there is no rounding and no overflow, and the two zeros are one. The
  rounding of double precision has its own section below, and the totals of the buckets
  are stated with it.
\<close>

datatype number = Num real | Infinity | NegInfinity | NaN

instantiation number :: comm_monoid_add
begin

definition zero_number :: number where
  "zero_number = Num 0"

definition plus_number :: "number \<Rightarrow> number \<Rightarrow> number" where
  "plus_number a b =
     (case (a, b) of
        (NaN, _) \<Rightarrow> NaN
      | (_, NaN) \<Rightarrow> NaN
      | (Num r, Num s) \<Rightarrow> Num (r + s)
      | (Num r, Infinity) \<Rightarrow> Infinity
      | (Num r, NegInfinity) \<Rightarrow> NegInfinity
      | (Infinity, NegInfinity) \<Rightarrow> NaN
      | (Infinity, _) \<Rightarrow> Infinity
      | (NegInfinity, Infinity) \<Rightarrow> NaN
      | (NegInfinity, _) \<Rightarrow> NegInfinity)"

instance
proof
  fix a b c :: number
  show "a + b + c = a + (b + c)"
    by (cases a; cases b; cases c) (simp_all add: plus_number_def)
  show "a + b = b + a"
    by (cases a; cases b) (simp_all add: plus_number_def)
  show "0 + a = a"
    by (cases a) (simp_all add: plus_number_def zero_number_def)
qed

end

text \<open>\<open>a * b\<close>, \<open>a / b\<close> and \<open>a - b\<close> of the language.\<close>

definition num_times :: "number \<Rightarrow> number \<Rightarrow> number" where
  "num_times a b =
     (case (a, b) of
        (NaN, _) \<Rightarrow> NaN
      | (_, NaN) \<Rightarrow> NaN
      | (Num r, Num s) \<Rightarrow> Num (r * s)
      | (Num r, Infinity) \<Rightarrow> (if r = 0 then NaN else if 0 < r then Infinity else NegInfinity)
      | (Num r, NegInfinity) \<Rightarrow> (if r = 0 then NaN else if 0 < r then NegInfinity else Infinity)
      | (Infinity, Num s) \<Rightarrow> (if s = 0 then NaN else if 0 < s then Infinity else NegInfinity)
      | (NegInfinity, Num s) \<Rightarrow> (if s = 0 then NaN else if 0 < s then NegInfinity else Infinity)
      | (Infinity, Infinity) \<Rightarrow> Infinity
      | (NegInfinity, NegInfinity) \<Rightarrow> Infinity
      | (Infinity, NegInfinity) \<Rightarrow> NegInfinity
      | (NegInfinity, Infinity) \<Rightarrow> NegInfinity)"

definition num_divide :: "number \<Rightarrow> number \<Rightarrow> number" where
  "num_divide a b =
     (case (a, b) of
        (NaN, _) \<Rightarrow> NaN
      | (_, NaN) \<Rightarrow> NaN
      | (Num r, Num s) \<Rightarrow>
          (if s \<noteq> 0 then Num (r / s)
           else if r = 0 then NaN else if 0 < r then Infinity else NegInfinity)
      | (Num r, _) \<Rightarrow> Num 0
      | (Infinity, Num s) \<Rightarrow> (if 0 \<le> s then Infinity else NegInfinity)
      | (NegInfinity, Num s) \<Rightarrow> (if 0 \<le> s then NegInfinity else Infinity)
      | (_, _) \<Rightarrow> NaN)"

definition num_minus :: "number \<Rightarrow> number \<Rightarrow> number" where
  "num_minus a b =
     (case (a, b) of
        (NaN, _) \<Rightarrow> NaN
      | (_, NaN) \<Rightarrow> NaN
      | (Num r, Num s) \<Rightarrow> Num (r - s)
      | (Num r, Infinity) \<Rightarrow> NegInfinity
      | (Num r, NegInfinity) \<Rightarrow> Infinity
      | (Infinity, Infinity) \<Rightarrow> NaN
      | (Infinity, _) \<Rightarrow> Infinity
      | (NegInfinity, NegInfinity) \<Rightarrow> NaN
      | (NegInfinity, _) \<Rightarrow> NegInfinity)"

section \<open>Reading numbers from strings\<close>

text \<open>
  \<open>parseInt(string)\<close> and \<open>parseFloat(string)\<close> of the language, on byte strings.
  White space is the ASCII white space (tab, line feed, vertical tab, form feed,
  carriage return, space).
\<close>

definition isWhiteSpace :: "char \<Rightarrow> bool" where
  "isWhiteSpace c = (of_char c \<in> {9, 10, 11, 12, 13, 32 :: nat})"

definition isDigit :: "char \<Rightarrow> bool" where
  "isDigit c = (48 \<le> (of_char c :: nat) \<and> (of_char c :: nat) \<le> 57)"

definition isHexDigit :: "char \<Rightarrow> bool" where
  "isHexDigit c =
     (isDigit c \<or> (65 \<le> (of_char c :: nat) \<and> (of_char c :: nat) \<le> 70)
                \<or> (97 \<le> (of_char c :: nat) \<and> (of_char c :: nat) \<le> 102))"

definition digitValue :: "char \<Rightarrow> nat" where
  "digitValue c =
     (if isDigit c then of_char c - 48
      else if 97 \<le> (of_char c :: nat) then of_char c - 87
      else of_char c - 55)"

definition digitsValue :: "nat \<Rightarrow> string \<Rightarrow> nat" where
  "digitsValue radix ds = foldl (\<lambda>a c. a * radix + digitValue c) 0 ds"

definition splitSign :: "string \<Rightarrow> bool \<times> string" where
  "splitSign s =
     (case s of
        [] \<Rightarrow> (False, s)
      | c # r \<Rightarrow> if c = CHR ''-'' then (True, r) else if c = CHR ''+'' then (False, r) else (False, s))"

definition splitRadix :: "string \<Rightarrow> nat \<times> string" where
  "splitRadix s =
     (case s of
        c # d # r \<Rightarrow>
          if c = CHR ''0'' \<and> (d = CHR ''x'' \<or> d = CHR ''X'') then (16, r) else (10, s)
      | _ \<Rightarrow> (10, s))"

definition parseInt :: "string \<Rightarrow> number" where
  "parseInt s =
     (let (neg, u) = splitSign (dropWhile isWhiteSpace s);
          (radix, v) = splitRadix u;
          z = takeWhile (if radix = 16 then isHexDigit else isDigit) v
      in if z = [] then NaN
         else Num (of_int ((if neg then - 1 else 1) * int (digitsValue radix z))))"

definition exponentPart :: "string \<Rightarrow> int" where
  "exponentPart s =
     (case s of
        [] \<Rightarrow> 0
      | c # r \<Rightarrow>
          if c = CHR ''e'' \<or> c = CHR ''E'' then
            (let (neg, ds) = splitSign r; z = takeWhile isDigit ds
             in if z = [] then 0 else (if neg then - 1 else 1) * int (digitsValue 10 z))
          else 0)"

definition startsWith :: "string \<Rightarrow> string \<Rightarrow> bool" where
  "startsWith s p = (take (length p) s = p)"

definition parseFloat :: "string \<Rightarrow> number" where
  "parseFloat s =
     (let (neg, u) = splitSign (dropWhile isWhiteSpace s)
      in if startsWith u ''Infinity'' then (if neg then NegInfinity else Infinity)
         else
           (let ip = takeWhile isDigit u;
                r1 = dropWhile isDigit u;
                (fp, r2) =
                  (case r1 of
                     [] \<Rightarrow> ([], r1)
                   | c # r \<Rightarrow>
                       if c = CHR ''.'' then (takeWhile isDigit r, dropWhile isDigit r)
                       else ([], r1))
            in if ip = [] \<and> fp = [] then NaN
               else Num ((if neg then - 1 else 1)
                         * (real (digitsValue 10 ip) + real (digitsValue 10 fp) / 10 ^ length fp)
                         * 10 powi exponentPart r2)))"

section \<open>Double precision\<close>






section \<open>Dates\<close>

text \<open>
  A \<open>Date\<close> object is its time value: a whole number of milliseconds since the
  epoch, or \<open>NaN\<close> for an invalid date. \<open>TimeClip\<close> is what the \<open>Date\<close>
  constructor applies to a Number argument: the value is truncated towards zero, and
  anything beyond 8.64e15 ms, or not finite, is an invalid date.
\<close>

datatype date = Date int | Invalid_Date

definition ToInteger :: "real \<Rightarrow> int" where
  "ToInteger r = (if 0 \<le> r then \<lfloor>r\<rfloor> else \<lceil>r\<rceil>)"

definition TimeClip :: "number \<Rightarrow> date" where
  "TimeClip v =
     (case v of
        Num r \<Rightarrow> if 8640000000000000 < \<bar>r\<bar> then Invalid_Date else Date (ToInteger r)
      | _ \<Rightarrow> Invalid_Date)"

definition new_Date :: "number \<Rightarrow> date" where
  "new_Date v = TimeClip v"

definition getTime :: "date \<Rightarrow> number" where
  "getTime d = (case d of Date t \<Rightarrow> Num (of_int t) | Invalid_Date \<Rightarrow> NaN)"

text \<open>
  \<open>fromUnixTime\<close> of date-fns: the date of a number of seconds. The code applies it
  to what \<open>parseInt\<close> returns, a whole number or \<open>NaN\<close>.
\<close>

definition fromUnixTime :: "number \<Rightarrow> date" where
  "fromUnixTime unixTime = new_Date (num_times unixTime (Num 1000))"

text \<open>
  Local time. \<open>getMinutes\<close> and \<open>setMinutes\<close> work in the time zone of the host,
  which the page does not choose: it is the parameter \<open>tz\<close>, the zone's offset from
  UTC in minutes (east positive), taken as constant over the dates at hand. A zone whose
  offset changes between these dates (daylight saving time) is outside the model: there
  an hour of local time is repeated or skipped, and the platform resolves it by rules of
  its own.
\<close>

definition msPerMinute :: int where "msPerMinute = 60000"
definition msPerHour :: int where "msPerHour = 3600000"
definition msPerDay :: int where "msPerDay = 86400000"

definition LocalTime :: "int \<Rightarrow> int \<Rightarrow> int" where
  "LocalTime tz t = t + tz * msPerMinute"

definition UTC :: "int \<Rightarrow> int \<Rightarrow> int" where
  "UTC tz t = t - tz * msPerMinute"

definition Day :: "int \<Rightarrow> int" where
  "Day t = t div msPerDay"

definition HourFromTime :: "int \<Rightarrow> int" where
  "HourFromTime t = (t div msPerHour) mod 24"

definition MinFromTime :: "int \<Rightarrow> int" where
  "MinFromTime t = (t div msPerMinute) mod 60"

definition MakeTime :: "int \<Rightarrow> int \<Rightarrow> int \<Rightarrow> int \<Rightarrow> int" where
  "MakeTime hour m sec ms = hour * msPerHour + m * msPerMinute + sec * 1000 + ms"

definition MakeDate :: "int \<Rightarrow> int \<Rightarrow> int" where
  "MakeDate dy tm = dy * msPerDay + tm"

definition getMinutes :: "int \<Rightarrow> date \<Rightarrow> number" where
  "getMinutes tz d =
     (case d of
        Date t \<Rightarrow> Num (of_int (MinFromTime (LocalTime tz t)))
      | Invalid_Date \<Rightarrow> NaN)"

text \<open>
  \<open>d.setMinutes(min, sec, ms)\<close>: the new time value of \<open>d\<close>, which is also what
  the call returns.
\<close>

definition setMinutes :: "int \<Rightarrow> date \<Rightarrow> number \<Rightarrow> number \<Rightarrow> number \<Rightarrow> number" where
  "setMinutes tz d m sec ms =
     (case d of
        Invalid_Date \<Rightarrow> NaN
      | Date t0 \<Rightarrow>
          (case (m, sec, ms) of
             (Num m', Num sec', Num ms') \<Rightarrow>
               (let t = LocalTime tz t0;
                    dt = MakeDate (Day t)
                           (MakeTime (HourFromTime t) (ToInteger m') (ToInteger sec') (ToInteger ms'))
                in getTime (TimeClip (Num (of_int (UTC tz dt)))))
           | _ \<Rightarrow> NaN))"

definition Math_floor :: "number \<Rightarrow> number" where
  "Math_floor v = (case v of Num r \<Rightarrow> Num (of_int \<lfloor>r\<rfloor>) | _ \<Rightarrow> v)"

text \<open>
  \<open>a - b\<close> on two dates: the difference of their time values.
\<close>

definition date_minus :: "date \<Rightarrow> date \<Rightarrow> number" where
  "date_minus a b = num_minus (getTime a) (getTime b)"

text \<open>
  A time value used as a property name is its decimal string (\<open>ToString\<close> of a whole
  number below 1e21), and \<open>NaN\<close> for an invalid date.
\<close>

definition digitChar :: "nat \<Rightarrow> char" where
  "digitChar n = char_of (48 + n)"

function showNat :: "nat \<Rightarrow> string" where
  "showNat n = (if n < 10 then [digitChar n] else showNat (n div 10) @ [digitChar (n mod 10)])"
  by pat_completeness auto
termination
  by (relation "measure id") auto

declare showNat.simps [simp del]

definition showInt :: "int \<Rightarrow> string" where
  "showInt i = (if i < 0 then CHR ''-'' # showNat (nat (- i)) else showNat (nat i))"

definition timeValueKey :: "date \<Rightarrow> string" where
  "timeValueKey d = (case d of Date t \<Rightarrow> showInt t | Invalid_Date \<Rightarrow> ''NaN'')"

section \<open>Data model\<close>

text \<open>
  The records of the four queries. Amounts and timestamps arrive as strings; a day's
  date arrives as a number.
\<close>

record token_ref =
  symbol :: string

record swap =
  swap_id :: string
  amountUSD :: string
  timestamp :: string
  token0 :: token_ref
  token1 :: token_ref

record token =
  token_id :: string
  token_symbol :: string
  token_volumeUSD :: string

record pool =
  pool_id :: string
  pool_token0 :: token_ref
  pool_token1 :: token_ref
  pool_volumeUSD :: string

record day_data =
  day_date :: int
  tvlUSD :: string
  volumeUSD :: string
  feesUSD :: string

text \<open>What \<open>useQuery\<close> hands to a section: \<open>{ loading, error, data }\<close>.\<close>

record apollo_error =
  message :: string

record 'a query_result =
  loading :: bool
  error :: "apollo_error option"
  data :: "'a option"

text \<open>A point of a chart: the fields \<open>x\<close> and \<open>y\<close>, and \<open>count\<close> or \<open>label\<close>
  where a variant adds one.\<close>

record point =
  point_x :: date
  point_y :: number

record counted_point = point +
  point_count :: nat

record labelled_point = point +
  point_label :: string

section \<open>Arrays\<close>

text \<open>\<open>xs.slice(s, e)\<close> for indices that are not negative.\<close>

definition slice :: "'a list \<Rightarrow> nat \<Rightarrow> nat \<Rightarrow> 'a list" where
  "slice xs s e = drop s (take e xs)"

text \<open>\<open>xs.reduce(f, init)\<close> is \<open>foldl f init xs\<close>.\<close>

section \<open>Aggregation of every 100 swaps (src/index.js)\<close>

definition totalAmountUSD :: "swap list \<Rightarrow> number" where
  "totalAmountUSD chunk = foldl (\<lambda>sum swap. sum + parseFloat (amountUSD swap)) 0 chunk"

definition avgTimestamp :: "swap list \<Rightarrow> number" where
  "avgTimestamp chunk =
     num_divide (foldl (\<lambda>sum swap. sum + parseInt (timestamp swap)) 0 chunk)
                (Num (real (length chunk)))"

function aggregateLoop :: "swap list \<Rightarrow> nat \<Rightarrow> point list \<Rightarrow> point list" where
  "aggregateLoop swaps i aggregateData =
     (if i < length swaps then
        (let chunk = slice swaps i (i + 100)
         in aggregateLoop swaps (i + 100)
              (aggregateData @
                 [\<lparr>point_x = new_Date (num_times (avgTimestamp chunk) (Num 1000)),
                   point_y = totalAmountUSD chunk\<rparr>]))
      else aggregateData)"
  by pat_completeness auto
termination
  by (relation "measure (\<lambda>(swaps, i, aggregateData). length swaps - i)") auto

declare aggregateLoop.simps [simp del]

definition aggregateData :: "swap list \<Rightarrow> point list" where
  "aggregateData swaps = aggregateLoop swaps 0 []"

section \<open>Aggregation by 10-minute intervals (.history/src/App_20240914233132.js)\<close>

text \<open>
  The accumulator of the reduction is an object: its own properties, in the order they
  were created. Writing an existing property keeps its place; a new one goes last.
\<close>

record bucket =
  totalAmount :: number
  bucket_count :: nat

type_synonym 'v object = "(string \<times> 'v) list"

fun put :: "string \<Rightarrow> 'v \<Rightarrow> 'v object \<Rightarrow> 'v object" where
  "put k v [] = [(k, v)]"
| "put k v ((k', v') # obj) = (if k' = k then (k, v) # obj else (k', v') # put k v obj)"

fun modify :: "string \<Rightarrow> ('v \<Rightarrow> 'v) \<Rightarrow> 'v object \<Rightarrow> 'v object" where
  "modify k f [] = []"
| "modify k f ((k', v') # obj) = (if k' = k then (k', f v') # obj else (k', v') # modify k f obj)"

definition timeKey :: "int \<Rightarrow> swap \<Rightarrow> string" where
  "timeKey tz swap =
     (let ts = fromUnixTime (parseInt (timestamp swap));
          minutes = num_times (Math_floor (num_divide (getMinutes tz ts) (Num 10))) (Num 10);
          roundedTimestamp = new_Date (setMinutes tz ts minutes (Num 0) (Num 0))
      in timeValueKey roundedTimestamp)"

definition reducer :: "int \<Rightarrow> bucket object \<Rightarrow> swap \<Rightarrow> bucket object" where
  "reducer tz acc swap =
     (let k = timeKey tz swap;
          acc1 = (if map_of acc k = None then put k \<lparr>totalAmount = 0, bucket_count = 0\<rparr> acc
                  else acc);
          acc2 = modify k (\<lambda>b. b\<lparr>totalAmount := totalAmount b + parseFloat (amountUSD swap)\<rparr>) acc1
      in modify k (\<lambda>b. b\<lparr>bucket_count := bucket_count b + 1\<rparr>) acc2)"

definition aggregatedData :: "int \<Rightarrow> swap list \<Rightarrow> bucket object" where
  "aggregatedData tz swaps = foldl (reducer tz) [] swaps"

text \<open>
  \<open>Object.entries\<close>: the properties whose names are array indices (canonical decimal
  numbers below 2^32 - 1) come first, in ascending order; the others follow in the
  order of their creation.
\<close>

definition isArrayIndex :: "string \<Rightarrow> bool" where
  "isArrayIndex k =
     (k \<noteq> [] \<and> list_all isDigit k \<and> (k = ''0'' \<or> hd k \<noteq> CHR ''0'')
      \<and> digitsValue 10 k < 4294967295)"

definition Object_entries :: "'v object \<Rightarrow> (string \<times> 'v) list" where
  "Object_entries obj =
     sort_key (\<lambda>(k, v). digitsValue 10 k) (filter (\<lambda>(k, v). isArrayIndex k) obj)
     @ filter (\<lambda>(k, v). \<not> isArrayIndex k) obj"

text \<open>
  \<open>xs.sort(cmp)\<close>: a stable sort; \<open>a\<close> stays before \<open>b\<close> unless \<open>cmp(a, b)\<close> is
  positive, and a comparison that yields \<open>NaN\<close> counts as zero. Where the comparison
  is consistent the result is the one stable sorted arrangement; where it is not (an
  invalid date among the elements) the language leaves the order to the engine, and the
  model gives that of an insertion sort.
\<close>

definition notAfter :: "('a \<Rightarrow> 'a \<Rightarrow> number) \<Rightarrow> 'a \<Rightarrow> 'a \<Rightarrow> bool" where
  "notAfter cmp a b =
     (case cmp a b of Num r \<Rightarrow> r \<le> 0 | Infinity \<Rightarrow> False | NegInfinity \<Rightarrow> True | NaN \<Rightarrow> True)"

fun insertSorted :: "('a \<Rightarrow> 'a \<Rightarrow> number) \<Rightarrow> 'a \<Rightarrow> 'a list \<Rightarrow> 'a list" where
  "insertSorted cmp a [] = [a]"
| "insertSorted cmp a (b # bs) =
     (if notAfter cmp a b then a # b # bs else b # insertSorted cmp a bs)"

definition Array_sort :: "('a \<Rightarrow> 'a \<Rightarrow> number) \<Rightarrow> 'a list \<Rightarrow> 'a list" where
  "Array_sort cmp xs = foldr (insertSorted cmp) xs []"

definition chartData :: "int \<Rightarrow> swap list \<Rightarrow> counted_point list" where
  "chartData tz swaps =
     Array_sort (\<lambda>a b. date_minus (point_x a) (point_x b))
       (map (\<lambda>(ts, d). \<lparr>point_x = new_Date (parseInt ts), point_y = totalAmount d,
                          point_count = bucket_count d\<rparr>)
          (Object_entries (aggregatedData tz swaps)))"

section \<open>The aggregations, with the arithmetic of the amounts as a parameter\<close>

text \<open>
  The same loop (src/index.js) and the same reduction (.history/src/App_20240914233132.js),
  where the addition \<open>add\<close> of the totals and the reading \<open>pf\<close> of an amount are
  parameters. With \<open>(+)\<close> and \<open>parseFloat\<close> they are the definitions above; with
  \<open>double_plus\<close> and \<open>parseDouble\<close> the totals are the doubles the platform
  computes. The dates and the keys of the buckets are those of the definitions above.
\<close>

definition totalAmountUSD_with ::
  "(number \<Rightarrow> number \<Rightarrow> number) \<Rightarrow> (string \<Rightarrow> number) \<Rightarrow> swap list \<Rightarrow> number" where
  "totalAmountUSD_with add pf chunk = foldl (\<lambda>sum swap. add sum (pf (amountUSD swap))) 0 chunk"

function aggregateLoop_with ::
  "(number \<Rightarrow> number \<Rightarrow> number) \<Rightarrow> (string \<Rightarrow> number) \<Rightarrow> swap list \<Rightarrow> nat \<Rightarrow> point list
     \<Rightarrow> point list" where
  "aggregateLoop_with add pf swaps i acc =
     (if i < length swaps then
        (let chunk = slice swaps i (i + 100)
         in aggregateLoop_with add pf swaps (i + 100)
              (acc @
                 [\<lparr>point_x = new_Date (num_times (avgTimestamp chunk) (Num 1000)),
                   point_y = totalAmountUSD_with add pf chunk\<rparr>]))
      else acc)"
  by pat_completeness auto
termination
  by (relation "measure (\<lambda>(add, pf, swaps, i, acc). length swaps - i)") auto

declare aggregateLoop_with.simps [simp del]

definition aggregateData_with ::
  "(number \<Rightarrow> number \<Rightarrow> number) \<Rightarrow> (string \<Rightarrow> number) \<Rightarrow> swap list \<Rightarrow> point list" where
  "aggregateData_with add pf swaps = aggregateLoop_with add pf swaps 0 []"

definition reducer_with ::
  "(number \<Rightarrow> number \<Rightarrow> number) \<Rightarrow> (string \<Rightarrow> number) \<Rightarrow> int \<Rightarrow> bucket object \<Rightarrow> swap
     \<Rightarrow> bucket object" where
  "reducer_with add pf tz acc swap =
     (let k = timeKey tz swap;
          acc1 = (if map_of acc k = None then put k \<lparr>totalAmount = 0, bucket_count = 0\<rparr> acc
                  else acc);
          acc2 = modify k (\<lambda>b. b\<lparr>totalAmount := add (totalAmount b) (pf (amountUSD swap))\<rparr>) acc1
      in modify k (\<lambda>b. b\<lparr>bucket_count := bucket_count b + 1\<rparr>) acc2)"

definition aggregatedData_with ::
  "(number \<Rightarrow> number \<Rightarrow> number) \<Rightarrow> (string \<Rightarrow> number) \<Rightarrow> int \<Rightarrow> swap list \<Rightarrow> bucket object" where
  "aggregatedData_with add pf tz swaps = foldl (reducer_with add pf tz) [] swaps"

definition chartData_with ::
  "(number \<Rightarrow> number \<Rightarrow> number) \<Rightarrow> (string \<Rightarrow> number) \<Rightarrow> int \<Rightarrow> swap list
     \<Rightarrow> counted_point list" where
  "chartData_with add pf tz swaps =
     Array_sort (\<lambda>a b. date_minus (point_x a) (point_x b))
       (map (\<lambda>(ts, d). \<lparr>point_x = new_Date (parseInt ts), point_y = totalAmount d,
                          point_count = bucket_count d\<rparr>)
          (Object_entries (aggregatedData_with add pf tz swaps)))"

section \<open>The first variant of the 100-swap aggregation (.history/src/App_20240914233132.js)\<close>

text \<open>
  Reading a property of \<open>undefined\<close> throws a \<open>TypeError\<close>; \<open>format\<close> of date-fns
  throws a \<open>RangeError\<close> on an invalid date.
\<close>

datatype js_error = TypeError | RangeError

definition element_at :: "'a list \<Rightarrow> int \<Rightarrow> js_error + 'a" where
  "element_at xs i = (if 0 \<le> i \<and> i < int (length xs) then Inr (xs ! nat i) else Inl TypeError)"

text \<open>
  The label of a bucket is made with \<open>toLocaleString\<close>, which depends on the host's
  locale: it is the parameter \<open>toLocaleString\<close>.
\<close>

definition startEndPoint ::
  "(date \<Rightarrow> string) \<Rightarrow> swap list \<Rightarrow> js_error + labelled_point" where
  "startEndPoint toLocaleString chunk =
     (case element_at chunk 0 of
        Inl e \<Rightarrow> Inl e
      | Inr first \<Rightarrow>
          (case element_at chunk (int (length chunk) - 1) of
             Inl e \<Rightarrow> Inl e
           | Inr lst \<Rightarrow>
               (let startTime = new_Date (num_times (parseInt (timestamp first)) (Num 1000));
                    endTime = new_Date (num_times (parseInt (timestamp lst)) (Num 1000))
                in Inr \<lparr>point_x = startTime, point_y = totalAmountUSD chunk,
                         point_label = toLocaleString startTime @ '' - '' @ toLocaleString endTime\<rparr>)))"

function aggregateLoop_v1 ::
  "(date \<Rightarrow> string) \<Rightarrow> swap list \<Rightarrow> nat \<Rightarrow> labelled_point list \<Rightarrow> js_error + labelled_point list" where
  "aggregateLoop_v1 toLocaleString swaps i acc =
     (if i < length swaps then
        (case startEndPoint toLocaleString (slice swaps i (i + 100)) of
           Inl e \<Rightarrow> Inl e
         | Inr p \<Rightarrow> aggregateLoop_v1 toLocaleString swaps (i + 100) (acc @ [p]))
      else Inr acc)"
  by pat_completeness auto
termination
  by (relation "measure (\<lambda>(toLocaleString, swaps, i, acc). length swaps - i)") auto

declare aggregateLoop_v1.simps [simp del]

definition aggregateData_v1 :: "(date \<Rightarrow> string) \<Rightarrow> swap list \<Rightarrow> js_error + labelled_point list" where
  "aggregateData_v1 toLocaleString swaps = aggregateLoop_v1 toLocaleString swaps 0 []"

section \<open>Loading more swaps (.history/src/App_20240914233132.js, the paged variant)\<close>

text \<open>
  \<open>updateQuery\<close> of \<open>loadMore\<close>. The query's data has the one field \<open>swaps\<close>; the
  model keeps its value. The component's state is the page number, which \<open>setPage\<close>
  sets.
\<close>

definition updateQuery :: "nat \<Rightarrow> swap list \<Rightarrow> swap list option \<Rightarrow> nat \<times> swap list" where
  "updateQuery page prev fetchMoreResult =
     (case fetchMoreResult of
        None \<Rightarrow> (page, prev)
      | Some fetched \<Rightarrow> (page + 1, prev @ fetched))"

section \<open>The sections of the page (src/index.js)\<close>

text \<open>
  What a section renders: the loading skeleton, an alert with a severity and a text, or
  its content. Of the content the model keeps the data handed to the charts and lists.
  \<open>format\<close> of date-fns depends on the host's locale and time zone: the text it gives
  for a valid date is the parameter \<open>fmt\<close>.
\<close>

datatype 'v element = LoadingSkeleton | Alert string string | Content 'v

definition ErrorMessage :: "string \<Rightarrow> 'v element" where
  "ErrorMessage msg = Alert ''error'' (''Error: '' @ msg)"

definition format :: "(int \<Rightarrow> string \<Rightarrow> string) \<Rightarrow> date \<Rightarrow> string \<Rightarrow> js_error + string" where
  "format fmt d pattern = (case d of Invalid_Date \<Rightarrow> Inl RangeError | Date t \<Rightarrow> Inr (fmt t pattern))"

primrec map_result :: "('a \<Rightarrow> 'e + 'b) \<Rightarrow> 'a list \<Rightarrow> 'e + 'b list" where
  "map_result f [] = Inr []"
| "map_result f (a # as) =
     (case f a of
        Inl e \<Rightarrow> Inl e
      | Inr b \<Rightarrow> (case map_result f as of Inl e \<Rightarrow> Inl e | Inr bs \<Rightarrow> Inr (b # bs)))"

record 'p swaps_view =
  line_data :: "'p list"
  latest :: "swap list"

record bar_view =
  bar_labels :: "string list"
  bar_data :: "number list"

record line_view =
  labels :: "string list"
  series :: "string list"

record stats_view =
  tvlData :: line_view
  volumeData :: line_view
  feesData :: line_view

definition latestSwaps :: "(int \<Rightarrow> string \<Rightarrow> string) \<Rightarrow> swap list \<Rightarrow> js_error + swap list" where
  "latestSwaps fmt swaps =
     map_result
       (\<lambda>swap. case format fmt (new_Date (num_times (parseInt (timestamp swap)) (Num 1000))) ''PPpp'' of
                  Inl e \<Rightarrow> Inl e
                | Inr s \<Rightarrow> Inr (swap\<lparr>timestamp := s\<rparr>))
       (slice swaps 0 5)"

definition Swaps ::
  "(int \<Rightarrow> string \<Rightarrow> string) \<Rightarrow> swap list query_result \<Rightarrow> js_error + point swaps_view element" where
  "Swaps fmt q =
     (if loading q then Inr LoadingSkeleton
      else case error q of
        Some e \<Rightarrow> Inr (ErrorMessage (message e))
      | None \<Rightarrow>
          (let swaps = (case data q of Some d \<Rightarrow> d | None \<Rightarrow> [])
           in case latestSwaps fmt swaps of
                Inl e \<Rightarrow> Inl e
              | Inr ls \<Rightarrow> Inr (Content \<lparr>line_data = aggregateData swaps, latest = ls\<rparr>)))"

definition TokenVolume :: "token list query_result \<Rightarrow> js_error + bar_view element" where
  "TokenVolume q =
     (if loading q then Inr LoadingSkeleton
      else case error q of
        Some e \<Rightarrow> Inr (ErrorMessage (message e))
      | None \<Rightarrow>
          (case data q of
             None \<Rightarrow> Inl TypeError
           | Some tokens \<Rightarrow>
               Inr (Content \<lparr>bar_labels = map token_symbol tokens,
                              bar_data = map (\<lambda>t. parseFloat (token_volumeUSD t)) tokens\<rparr>)))"

definition TopPairs :: "pool list query_result \<Rightarrow> js_error + bar_view element" where
  "TopPairs q =
     (if loading q then Inr LoadingSkeleton
      else case error q of
        Some e \<Rightarrow> Inr (ErrorMessage (message e))
      | None \<Rightarrow>
          (case data q of
             None \<Rightarrow> Inl TypeError
           | Some pairs \<Rightarrow>
               Inr (Content
                 \<lparr>bar_labels = map (\<lambda>p. symbol (pool_token0 p) @ ''/'' @ symbol (pool_token1 p)) pairs,
                  bar_data = map (\<lambda>p. parseFloat (pool_volumeUSD p)) pairs\<rparr>)))"

definition createChartData :: "string list \<Rightarrow> string list \<Rightarrow> line_view" where
  "createChartData lbls d = \<lparr>labels = lbls, series = d\<rparr>"

definition ProtocolStats ::
  "(int \<Rightarrow> string \<Rightarrow> string) \<Rightarrow> day_data list query_result \<Rightarrow> js_error + stats_view element" where
  "ProtocolStats fmt q =
     (if loading q then Inr LoadingSkeleton
      else case error q of
        Some e \<Rightarrow> Inr (ErrorMessage (message e))
      | None \<Rightarrow>
          (case data q of
             None \<Rightarrow> Inl TypeError
           | Some uniswapDayDatas \<Rightarrow>
               (case map_result
                       (\<lambda>entry. format fmt (new_Date (Num (of_int (day_date entry * 1000)))) ''MMM d'')
                       uniswapDayDatas of
                  Inl e \<Rightarrow> Inl e
                | Inr lbls \<Rightarrow>
                    Inr (Content
                      \<lparr>tvlData = createChartData lbls (map tvlUSD uniswapDayDatas),
                       volumeData = createChartData lbls (map volumeUSD uniswapDayDatas),
                       feesData = createChartData lbls (map feesUSD uniswapDayDatas)\<rparr>))))"

text \<open>
  The \<open>Swaps\<close> section of the 10-minute variant: the same guards, with the sorted
  10-minute buckets as the line's data.
\<close>

definition latestSwaps_10min :: "(int \<Rightarrow> string \<Rightarrow> string) \<Rightarrow> swap list \<Rightarrow> js_error + swap list" where
  "latestSwaps_10min fmt swaps =
     map_result
       (\<lambda>swap. case format fmt (fromUnixTime (parseInt (timestamp swap))) ''PPpp'' of
                  Inl e \<Rightarrow> Inl e
                | Inr s \<Rightarrow> Inr (swap\<lparr>timestamp := s\<rparr>))
       (slice swaps 0 5)"

definition Swaps_10min ::
  "int \<Rightarrow> (int \<Rightarrow> string \<Rightarrow> string) \<Rightarrow> swap list query_result
     \<Rightarrow> js_error + counted_point swaps_view element" where
  "Swaps_10min tz fmt q =
     (if loading q then Inr LoadingSkeleton
      else case error q of
        Some e \<Rightarrow> Inr (ErrorMessage (message e))
      | None \<Rightarrow>
          (let swaps = (case data q of Some d \<Rightarrow> d | None \<Rightarrow> [])
           in case latestSwaps_10min fmt swaps of
                Inl e \<Rightarrow> Inl e
              | Inr ls \<Rightarrow> Inr (Content \<lparr>line_data = chartData tz swaps, latest = ls\<rparr>)))"

section \<open>Notions used in the statements\<close>

text \<open>
  The chunks the loop of the 100-swap aggregation visits, from index \<open>i\<close> on; the
  bucket the current code makes of a chunk, and the one its first variant makes; the sum
  of the totals of an accumulator; a swap with a given amount and timestamp; and the
  state of a query that failed with a message.
\<close>

function chunks :: "'a list \<Rightarrow> nat \<Rightarrow> 'a list list" where
  "chunks xs i = (if i < length xs then slice xs i (i + 100) # chunks xs (i + 100) else [])"
  by pat_completeness auto
termination
  by (relation "measure (\<lambda>(xs, i). length xs - i)") auto

declare chunks.simps [simp del]

definition bucketPoint :: "swap list \<Rightarrow> point" where
  "bucketPoint chunk =
     \<lparr>point_x = new_Date (num_times (avgTimestamp chunk) (Num 1000)),
      point_y = totalAmountUSD chunk\<rparr>"

definition labelledPoint :: "(date \<Rightarrow> string) \<Rightarrow> swap list \<Rightarrow> labelled_point" where
  "labelledPoint toLocaleString chunk =
     \<lparr>point_x = new_Date (num_times (parseInt (timestamp (hd chunk))) (Num 1000)),
      point_y = totalAmountUSD chunk,
      point_label =
        toLocaleString (new_Date (num_times (parseInt (timestamp (hd chunk))) (Num 1000)))
        @ '' - '' @
        toLocaleString (new_Date (num_times (parseInt (timestamp (last chunk))) (Num 1000)))\<rparr>"

definition mkSwap :: "string \<Rightarrow> string \<Rightarrow> swap" where
  "mkSwap amount ts =
     \<lparr>swap_id = ''0x1'', amountUSD = amount, timestamp = ts,
      token0 = \<lparr>symbol = ''WETH''\<rparr>, token1 = \<lparr>symbol = ''USDC''\<rparr>\<rparr>"

definition failed :: "'a query_result \<Rightarrow> string \<Rightarrow> bool" where
  "failed q m = (\<not> loading q \<and> (\<exists>e. error q = Some e \<and> message e = m))"

definition bucketsTotal :: "bucket object \<Rightarrow> number" where
  "bucketsTotal obj = sum_list (map (\<lambda>(k, b). totalAmount b) obj)"

text \<open>
  The time value \<open>setMinutes\<close> leaves in a date of time value \<open>t\<close>, when the minutes
  are those of \<open>t\<close> rounded down to a multiple of 10; and the Unix time a timestamp
  string reads as, when it is a time whose 10-minute interval lies in the range of dates.
\<close>

definition roundedTime :: "int \<Rightarrow> int \<Rightarrow> int" where
  "roundedTime tz t =
     (let l = LocalTime tz t
      in UTC tz (MakeDate (Day l) (MakeTime (HourFromTime l) (MinFromTime l div 10 * 10) 0 0)))"

definition unixTime :: "string \<Rightarrow> int option" where
  "unixTime ts =
     (case parseInt ts of
        Num r \<Rightarrow> if - 8639999999400 \<le> r \<and> r \<le> 8640000000000 then Some \<lfloor>r\<rfloor> else None
      | _ \<Rightarrow> None)"

text \<open>
  Order of a list of dates: all of them valid, with time values that do not decrease
  (ascending) or do not increase (descending).
\<close>

definition dateValue :: "date \<Rightarrow> int" where
  "dateValue d = (case d of Date t \<Rightarrow> t | Invalid_Date \<Rightarrow> 0)"

definition ascending :: "date list \<Rightarrow> bool" where
  "ascending ds = (Invalid_Date \<notin> set ds \<and> sorted (map dateValue ds))"

definition descending :: "date list \<Rightarrow> bool" where
  "descending ds = (Invalid_Date \<notin> set ds \<and> sorted (rev (map dateValue ds)))"

text \<open>
  The time value of the date made from the average of a chunk's Unix times.
\<close>

definition avgTime :: "int list \<Rightarrow> int" where
  "avgTime us = ToInteger (real_of_int (sum_list us) / real (length us) * 1000)"

text \<open>
  A swap with everything but its amount and timestamp erased; and a list of 101 swaps in
  descending order of time.
\<close>

definition amountAndTimestamp :: "swap \<Rightarrow> swap" where
  "amountAndTimestamp s =
     \<lparr>swap_id = [], amountUSD = amountUSD s, timestamp = timestamp s,
      token0 = \<lparr>symbol = []\<rparr>, token1 = \<lparr>symbol = []\<rparr>\<rparr>"

definition descendingExample :: "swap list" where
  "descendingExample = replicate 100 (mkSwap ''1'' ''200'') @ [mkSwap ''2'' ''100'']"

text \<open>
  The keys of a list of swaps in the order of their first appearance, which is the order
  of the properties of the accumulator; the bucket of a key, made of the swaps that have
  it; and the groups of the list: for each key, the swaps that have it, in the order of
  the list.
\<close>

definition keysInOrder :: "int \<Rightarrow> swap list \<Rightarrow> string list" where
  "keysInOrder tz swaps = rev (remdups (rev (map (timeKey tz) swaps)))"

definition bucketOf ::
  "(number \<Rightarrow> number \<Rightarrow> number) \<Rightarrow> (string \<Rightarrow> number) \<Rightarrow> int \<Rightarrow> swap list \<Rightarrow> string \<Rightarrow> bucket" where
  "bucketOf add pf tz swaps k =
     \<lparr>totalAmount = totalAmountUSD_with add pf (filter (\<lambda>swap. timeKey tz swap = k) swaps),
      bucket_count = length (filter (\<lambda>swap. timeKey tz swap = k) swaps)\<rparr>"


text \<open>
  A list of 102 swaps in descending order of time: 100 swaps at 600 s, the last of them
  of amount 0.1 and the others of amount 0, then two swaps at 0 s, of amounts 0.2 and 0.3.
  They make two buckets of 100 swaps and, at UTC, two buckets of 10 minutes.
\<close>

definition twoBucketExample :: "swap list" where
  "twoBucketExample =
     replicate 99 (mkSwap ''0'' ''600'')
     @ [mkSwap ''0.1'' ''600'', mkSwap ''0.2'' ''0'', mkSwap ''0.3'' ''0'']"

section \<open>Properties of the 100-swap aggregation\<close>

subsection \<open>The chunks of the loop\<close>

lemma length_slice: "length (slice xs s e) = min e (length xs) - s"
  by (simp add: slice_def)

lemma slice_chunk_length:
  "i < length xs \<Longrightarrow> 1 \<le> length (slice xs i (i + 100)) \<and> length (slice xs i (i + 100)) \<le> 100"
  by (auto simp: length_slice min_def)

lemma slice_append_drop: "s \<le> e \<Longrightarrow> slice xs s e @ drop e xs = drop s xs"
proof -
  assume le: "s \<le> e"
  have a: "drop s (take e xs) = take (e - s) (drop s xs)"
    by (simp add: drop_take)
  have b: "drop e xs = drop (e - s) (drop s xs)"
    using le by simp
  show ?thesis
    unfolding slice_def a b by (rule append_take_drop_id)
qed

lemma chunks_lengths: "c \<in> set (chunks xs i) \<Longrightarrow> 1 \<le> length c \<and> length c \<le> 100"
proof (induction xs i rule: chunks.induct)
  case (1 xs i)
  show ?case
  proof (cases "i < length xs")
    case True
    with "1.prems" have "c = slice xs i (i + 100) \<or> c \<in> set (chunks xs (i + 100))"
      by (subst (asm) chunks.simps) simp
    then show ?thesis using True "1.IH" slice_chunk_length by blast
  next
    case False
    with "1.prems" show ?thesis by (subst (asm) chunks.simps) simp
  qed
qed

lemma concat_chunks: "concat (chunks xs i) = drop i xs"
proof (induction xs i rule: chunks.induct)
  case (1 xs i)
  show ?case
  proof (cases "i < length xs")
    case True
    then have "concat (chunks xs i) = slice xs i (i + 100) @ concat (chunks xs (i + 100))"
      by (subst chunks.simps) simp
    also have "\<dots> = slice xs i (i + 100) @ drop (i + 100) xs"
      using True "1.IH" by simp
    also have "\<dots> = drop i xs" by (rule slice_append_drop) simp
    finally show ?thesis .
  next
    case False
    then show ?thesis by (subst chunks.simps) simp
  qed
qed

lemma map_chunks: "chunks (map f xs) i = map (map f) (chunks xs i)"
proof (induction xs i rule: chunks.induct)
  case (1 xs i)
  show ?case
  proof (cases "i < length xs")
    case True
    have a: "chunks (map f xs) i = slice (map f xs) i (i + 100) # chunks (map f xs) (i + 100)"
      using True by (subst chunks.simps) simp
    have b: "chunks xs i = slice xs i (i + 100) # chunks xs (i + 100)"
      using True by (subst chunks.simps) simp
    show ?thesis
      unfolding a b using "1.IH" [OF True] by (simp add: slice_def take_map drop_map)
  next
    case False
    then show ?thesis by (subst (1 2) chunks.simps) simp
  qed
qed



subsection \<open>The buckets\<close>

lemma foldl_plus_sum_list:
  fixes f :: "'a \<Rightarrow> number"
  shows "foldl (\<lambda>sum x. sum + f x) a xs = a + sum_list (map f xs)"
  by (induction xs arbitrary: a) (simp_all add: add.assoc)

lemma totalAmountUSD_sum_list:
  "totalAmountUSD chunk = sum_list (map (\<lambda>s. parseFloat (amountUSD s)) chunk)"
  by (simp add: totalAmountUSD_def foldl_plus_sum_list)

lemma avgTimestamp_sum_list:
  "avgTimestamp chunk =
     num_divide (sum_list (map (\<lambda>s. parseInt (timestamp s)) chunk)) (Num (real (length chunk)))"
  by (simp add: avgTimestamp_def foldl_plus_sum_list)

lemma aggregateLoop_chunks:
  "aggregateLoop swaps i acc = acc @ map bucketPoint (chunks swaps i)"
proof (induction swaps i acc rule: aggregateLoop.induct)
  case (1 swaps i acc)
  show ?case
  proof (cases "i < length swaps")
    case True
    then show ?thesis
      using "1.IH" [OF True refl]
      by (subst aggregateLoop.simps, subst chunks.simps) (simp add: bucketPoint_def Let_def)
  next
    case False
    then show ?thesis
      by (subst aggregateLoop.simps, subst chunks.simps) simp
  qed
qed

lemma aggregateData_chunks: "aggregateData swaps = map bucketPoint (chunks swaps 0)"
  by (simp add: aggregateData_def aggregateLoop_chunks)

lemma aggregateData_Nil: "aggregateData [] = []"
  by (simp add: aggregateData_def aggregateLoop.simps)

lemma startEndPoint_nonempty:
  "chunk \<noteq> [] \<Longrightarrow> startEndPoint tls chunk = Inr (labelledPoint tls chunk)"
  by (cases chunk rule: rev_cases)
     (simp_all add: startEndPoint_def element_at_def labelledPoint_def Let_def hd_conv_nth nth_append)

lemma startEndPoint_empty: "startEndPoint tls [] = Inl TypeError"
  by (simp add: startEndPoint_def element_at_def)

lemma aggregateLoop_v1_chunks:
  "aggregateLoop_v1 tls swaps i acc = Inr (acc @ map (labelledPoint tls) (chunks swaps i))"
proof (induction tls swaps i acc rule: aggregateLoop_v1.induct)
  case (1 tls swaps i acc)
  show ?case
  proof (cases "i < length swaps")
    case True
    then have ne: "slice swaps i (i + 100) \<noteq> []"
      using slice_chunk_length [of i swaps] by auto
    have step: "aggregateLoop_v1 tls swaps i acc
          = aggregateLoop_v1 tls swaps (i + 100) (acc @ [labelledPoint tls (slice swaps i (i + 100))])"
      using True by (subst aggregateLoop_v1.simps) (simp add: startEndPoint_nonempty [OF ne])
    have ch: "chunks swaps i = slice swaps i (i + 100) # chunks swaps (i + 100)"
      using True by (subst chunks.simps) simp
    show ?thesis
      unfolding step ch using "1.IH" [OF True startEndPoint_nonempty [OF ne]] by simp
  next
    case False
    then show ?thesis
      by (subst aggregateLoop_v1.simps, subst chunks.simps) simp
  qed
qed

lemma aggregateData_v1_chunks:
  "aggregateData_v1 tls swaps = Inr (map (labelledPoint tls) (chunks swaps 0))"
  by (simp add: aggregateData_v1_def aggregateLoop_v1_chunks)

text \<open>
  Claim C9. Every slice the loop takes at an index below the length of the list holds
  between 1 and 100 swaps. The buckets of both 100-swap variants are made from exactly
  these chunks, so the average divides by a length that is not zero, and the first
  variant, which reads the first and the last swap of each chunk, returns its buckets and
  never an error.
\<close>

theorem C9_chunks_nonempty:
  "(\<forall>i < length swaps. 1 \<le> length (slice swaps i (i + 100)) \<and> length (slice swaps i (i + 100)) \<le> 100)
   \<and> aggregateData swaps = map bucketPoint (chunks swaps 0)
   \<and> (\<forall>c \<in> set (chunks swaps 0). 1 \<le> length c \<and> length c \<le> 100 \<and> real (length c) \<noteq> 0)
   \<and> aggregateData_v1 toLocaleString swaps = Inr (map (labelledPoint toLocaleString) (chunks swaps 0))"
  using slice_chunk_length [of _ swaps] chunks_lengths [of _ swaps 0]
  by (fastforce simp add: aggregateData_chunks aggregateData_v1_chunks)

theorem C9_chunks_nonempty_witness:
  "1 \<le> length (slice [mkSwap ''10'' ''1000'', mkSwap ''20'' ''1001''] 0 (0 + 100))
   \<and> length (slice [mkSwap ''10'' ''1000'', mkSwap ''20'' ''1001''] 0 (0 + 100)) \<le> 100"
proof -
  have "0 < length [mkSwap ''10'' ''1000'', mkSwap ''20'' ''1001'']" by simp
  with C9_chunks_nonempty [of "[mkSwap ''10'' ''1000'', mkSwap ''20'' ''1001'']"]
  show ?thesis by blast
qed



section \<open>The total of the buckets, in exact arithmetic\<close>

text \<open>
  With the exact sums of the first section the totals of the buckets add up to the sum
  of the amounts, under both policies. The totals the platform computes, in double
  precision, are the subject of a later section.
\<close>

subsection \<open>Buckets of 100 swaps\<close>

lemma sum_list_concat_number:
  fixes xss :: "number list list"
  shows "sum_list (concat xss) = sum_list (map sum_list xss)"
  by (induction xss) simp_all

lemma aggregateData_total:
  "sum_list (map point_y (aggregateData swaps)) = sum_list (map (\<lambda>s. parseFloat (amountUSD s)) swaps)"
proof -
  have "sum_list (map point_y (aggregateData swaps))
        = sum_list (map (\<lambda>c. sum_list (map (\<lambda>s. parseFloat (amountUSD s)) c)) (chunks swaps 0))"
    by (simp add: aggregateData_chunks bucketPoint_def totalAmountUSD_sum_list comp_def)
  also have "\<dots> = sum_list (map (\<lambda>s. parseFloat (amountUSD s)) (concat (chunks swaps 0)))"
    by (simp add: sum_list_concat_number map_concat comp_def)
  finally show ?thesis by (simp add: concat_chunks)
qed

subsection \<open>Buckets of 10 minutes\<close>

lemma put_absent: "map_of obj k = None \<Longrightarrow> put k v obj = obj @ [(k, v)]"
  by (induction obj) (auto split: if_splits)

lemma map_fst_modify: "map fst (modify k f obj) = map fst obj"
  by (induction obj) auto

lemma total_Nil: "bucketsTotal [] = 0"
  by (simp add: bucketsTotal_def)

lemma total_append_new:
  "bucketsTotal (obj @ [(k, \<lparr>totalAmount = 0, bucket_count = 0\<rparr>)]) = bucketsTotal obj"
  by (simp add: bucketsTotal_def)

lemma total_modify_amount:
  "k \<in> fst ` set obj \<Longrightarrow>
     bucketsTotal (modify k (\<lambda>b. b\<lparr>totalAmount := totalAmount b + a\<rparr>) obj) = bucketsTotal obj + a"
proof (induction obj)
  case Nil
  then show ?case by simp
next
  case (Cons p obj)
  obtain k' v' where p: "p = (k', v')" by (cases p)
  show ?case
  proof (cases "k' = k")
    case True
    then show ?thesis by (simp add: p bucketsTotal_def ac_simps)
  next
    case False
    with Cons.prems p have "k \<in> fst ` set obj" by auto
    from Cons.IH [OF this] False show ?thesis by (simp add: p bucketsTotal_def ac_simps)
  qed
qed

lemma total_modify_count:
  "bucketsTotal (modify k (\<lambda>b. b\<lparr>bucket_count := f (bucket_count b)\<rparr>) obj) = bucketsTotal obj"
  by (induction obj) (auto simp: bucketsTotal_def)

lemma reducer_total: "bucketsTotal (reducer tz acc s) = bucketsTotal acc + parseFloat (amountUSD s)"
proof (cases "map_of acc (timeKey tz s) = None")
  case True
  then show ?thesis
    by (simp add: reducer_def Let_def put_absent total_modify_count total_modify_amount
        total_append_new)
next
  case False
  then have "timeKey tz s \<in> fst ` set acc"
    by (simp add: map_of_eq_None_iff)
  with False show ?thesis
    by (auto simp add: reducer_def Let_def total_modify_count total_modify_amount)
qed

lemma foldl_reducer_total:
  "bucketsTotal (foldl (reducer tz) acc swaps)
     = bucketsTotal acc + sum_list (map (\<lambda>s. parseFloat (amountUSD s)) swaps)"
  by (induction swaps arbitrary: acc) (simp_all add: reducer_total add.assoc)

lemma aggregatedData_total:
  "bucketsTotal (aggregatedData tz swaps) = sum_list (map (\<lambda>s. parseFloat (amountUSD s)) swaps)"
  by (simp add: aggregatedData_def foldl_reducer_total total_Nil)

lemma mset_insertSorted: "mset (insertSorted cmp a xs) = add_mset a (mset xs)"
  by (induction xs) simp_all

lemma mset_Array_sort: "mset (Array_sort cmp xs) = mset xs"
  by (induction xs) (simp_all add: Array_sort_def mset_insertSorted)

lemma mset_Object_entries: "mset (Object_entries obj) = mset obj"
  by (simp add: Object_entries_def)

lemma sum_list_map_mset:
  fixes f :: "'a \<Rightarrow> number"
  assumes "mset xs = mset ys"
  shows "sum_list (map f xs) = sum_list (map f ys)"
proof -
  have "sum_list (map f xs) = sum_mset (image_mset f (mset xs))"
    by (simp add: sum_mset_sum_list [symmetric])
  also have "\<dots> = sum_mset (image_mset f (mset ys))"
    using assms by simp
  also have "\<dots> = sum_list (map f ys)"
    by (simp add: sum_mset_sum_list [symmetric])
  finally show ?thesis .
qed

lemma chartData_total:
  "sum_list (map point_y (chartData tz swaps)) = sum_list (map (\<lambda>s. parseFloat (amountUSD s)) swaps)"
proof -
  have "sum_list (map point_y (chartData tz swaps))
        = sum_list (map point_y
            (map (\<lambda>(ts, d). \<lparr>point_x = new_Date (parseInt ts), point_y = totalAmount d,
                          point_count = bucket_count d\<rparr>)
               (Object_entries (aggregatedData tz swaps))))"
    unfolding chartData_def by (rule sum_list_map_mset) (rule mset_Array_sort)
  also have "\<dots> = sum_list (map (\<lambda>(k, b). totalAmount b) (Object_entries (aggregatedData tz swaps)))"
    by (simp add: comp_def case_prod_unfold)
  also have "\<dots> = bucketsTotal (aggregatedData tz swaps)"
    unfolding bucketsTotal_def by (rule sum_list_map_mset) (rule mset_Object_entries)
  finally show ?thesis by (simp add: aggregatedData_total)
qed

section \<open>The keys of the 10-minute buckets\<close>

subsection \<open>Rounding to 10 minutes\<close>

lemma minutes_round:
  fixes m :: int
  shows "(m div 1440) * 1440 + ((m div 60) mod 24) * 60 + ((m mod 60) div 10) * 10 = (m div 10) * 10"
proof -
  have a: "m div 1440 = (m div 60) div 24"
    using zdiv_zmult2_eq [of 24 m 60] by simp
  have b: "(m div 60) div 24 * 1440 + (m div 60) mod 24 * 60 = (m div 60) * 60"
    using div_mult_mod_eq [of "m div 60" 24] by linarith
  have c: "m mod 60 div 10 * 10 = m mod 60 - m mod 60 mod 10"
    using div_mult_mod_eq [of "m mod 60" 10] by linarith
  have d: "m mod 60 mod 10 = m mod 10"
    by (rule mod_mod_cancel) simp
  have e: "m div 10 * 10 = m - m mod 10"
    using div_mult_mod_eq [of m 10] by linarith
  have f: "m div 60 * 60 = m - m mod 60"
    using div_mult_mod_eq [of m 60] by linarith
  show ?thesis unfolding a using b c d e f by linarith
qed

lemma roundedTime_eq:
  "roundedTime tz t = (t + tz * 60000) div 600000 * 600000 - tz * 60000"
proof -
  define l where "l = t + tz * 60000"
  define m where "m = l div 60000"
  have h: "l div 3600000 = m div 60"
    using zdiv_zmult2_eq [of 60 l 60000] by (simp add: m_def)
  have d: "l div 86400000 = m div 1440"
    using zdiv_zmult2_eq [of 1440 l 60000] by (simp add: m_def)
  have r: "l div 600000 = m div 10"
    using zdiv_zmult2_eq [of 10 l 60000] by (simp add: m_def)
  have "MakeDate (Day l) (MakeTime (HourFromTime l) (MinFromTime l div 10 * 10) 0 0)
        = ((m div 1440) * 1440 + ((m div 60) mod 24) * 60 + ((m mod 60) div 10) * 10) * 60000"
    by (simp add: MakeDate_def Day_def MakeTime_def HourFromTime_def MinFromTime_def
        msPerDay_def msPerHour_def msPerMinute_def h d m_def [symmetric])
  also have "\<dots> = l div 600000 * 600000"
    unfolding minutes_round r by simp
  finally show ?thesis
    by (simp add: roundedTime_def Let_def LocalTime_def UTC_def msPerMinute_def l_def)
qed

lemma roundedTime_bounds: "t - 600000 < roundedTime tz t \<and> roundedTime tz t \<le> t"
proof -
  define l where "l = t + tz * 60000"
  have "l div 600000 * 600000 = l - l mod 600000"
    using div_mult_mod_eq [of l 600000] by linarith
  moreover have "0 \<le> l mod 600000" "l mod 600000 < 600000" by simp_all
  ultimately show ?thesis
    unfolding roundedTime_eq l_def by linarith
qed

lemma roundedTime_aligned:
  assumes "tz mod 10 = 0"
  shows "roundedTime tz t = t div 600000 * 600000"
proof -
  from assms obtain k where k: "tz = 10 * k" by (auto elim: dvdE simp: mod_eq_0_iff_dvd)
  have "(t + tz * 60000) div 600000 = t div 600000 + k"
    unfolding k by simp
  then show ?thesis
    unfolding roundedTime_eq by (simp add: k algebra_simps)
qed

lemma parseInt_whole: "parseInt s = Num r \<Longrightarrow> r = of_int \<lfloor>r\<rfloor>"
  by (auto simp: parseInt_def Let_def split: prod.splits if_splits)

lemma unixTime_Some:
  assumes "unixTime ts = Some t"
  shows "parseInt ts = Num (of_int t)" and "- 8639999999400 \<le> t" and "t \<le> 8640000000000"
proof -
  from assms obtain r where r: "parseInt ts = Num r" "- 8639999999400 \<le> r" "r \<le> 8640000000000"
    "t = \<lfloor>r\<rfloor>"
    by (auto simp: unixTime_def split: number.splits if_splits)
  from parseInt_whole [OF r(1)] r(4) have rt: "r = of_int t" by simp
  show "parseInt ts = Num (of_int t)" using r(1) rt by simp
  show "- 8639999999400 \<le> t" using r(2) unfolding rt by linarith
  show "t \<le> 8640000000000" using r(3) unfolding rt by linarith
qed

lemma ToInteger_of_int: "ToInteger (of_int i) = i"
  by (simp add: ToInteger_def)

lemma ToInteger_of_int_times: "ToInteger (of_int i * 10) = i * 10"
  using ToInteger_of_int [of "i * 10"] by simp

lemma ToInteger_zero: "ToInteger 0 = 0"
  by (simp add: ToInteger_def)

lemma TimeClip_of_int:
  "\<bar>u\<bar> \<le> 8640000000000000 \<Longrightarrow> TimeClip (Num (of_int u)) = Date u"
proof -
  assume a: "\<bar>u\<bar> \<le> 8640000000000000"
  then have "\<not> (8640000000000000 :: real) < \<bar>of_int u\<bar>"
    by linarith
  then show ?thesis by (simp add: TimeClip_def ToInteger_of_int)
qed

lemma timeKey_unixTime:
  assumes "unixTime (timestamp s) = Some t"
  shows "timeKey tz s = showInt (roundedTime tz (t * 1000))"
    and "\<bar>roundedTime tz (t * 1000)\<bar> \<le> 8640000000000000"
proof -
  note p = unixTime_Some [OF assms]
  have r1: "\<bar>t * 1000\<bar> \<le> 8640000000000000" using p(2,3) by linarith
  show r2: "\<bar>roundedTime tz (t * 1000)\<bar> \<le> 8640000000000000"
    using roundedTime_bounds [of "t * 1000" tz] p(2,3) by linarith
  have ts: "fromUnixTime (parseInt (timestamp s)) = Date (t * 1000)"
    using TimeClip_of_int [OF r1] by (simp add: fromUnixTime_def new_Date_def p(1) num_times_def)
  define mn where "mn = MinFromTime (LocalTime tz (t * 1000))"
  have fl: "\<lfloor>real_of_int mn / 10\<rfloor> = mn div 10"
    using floor_divide_of_int_eq [of mn 10, where ?'a = real] by simp
  have minutes: "num_times (Math_floor (num_divide (getMinutes tz (Date (t * 1000))) (Num 10))) (Num 10)
        = Num (of_int (mn div 10) * 10)"
    by (simp add: getMinutes_def num_divide_def Math_floor_def num_times_def mn_def [symmetric] fl)
  have sm: "setMinutes tz (Date (t * 1000)) (Num (of_int (mn div 10) * 10)) (Num 0) (Num 0)
        = Num (of_int (roundedTime tz (t * 1000)))"
    using TimeClip_of_int [OF r2]
    by (simp add: setMinutes_def Let_def ToInteger_of_int_times ToInteger_zero roundedTime_def
        mn_def getTime_def)
  show "timeKey tz s = showInt (roundedTime tz (t * 1000))"
    using TimeClip_of_int [OF r2]
    by (simp add: timeKey_def Let_def ts minutes sm new_Date_def timeValueKey_def)
qed

lemma timeKey_aligned:
  assumes "tz mod 10 = 0" and "unixTime (timestamp s) = Some t"
  shows "timeKey tz s = showInt (t div 600 * 600 * 1000)"
proof -
  have "t * 1000 div 600000 = t div 600"
    using zdiv_zmult2_eq [of 600 "t * 1000" 1000] by simp
  then show ?thesis
    using timeKey_unixTime(1) [OF assms(2), of tz] roundedTime_aligned [OF assms(1), of "t * 1000"]
    by (simp add: ac_simps)
qed

subsection \<open>Time values as property names\<close>

lemma isDigit_digitChar: "d < 10 \<Longrightarrow> isDigit (digitChar d)"
  by (simp add: isDigit_def digitChar_def)

lemma digitValue_digitChar: "d < 10 \<Longrightarrow> digitValue (digitChar d) = d"
  by (simp add: digitValue_def isDigit_def digitChar_def)

lemma digitsValue_snoc: "digitsValue 10 (ds @ [c]) = digitsValue 10 ds * 10 + digitValue c"
  by (simp add: digitsValue_def)

lemma showNat_props:
  "showNat n \<noteq> [] \<and> (\<forall>c \<in> set (showNat n). isDigit c) \<and> digitsValue 10 (showNat n) = n"
proof (induction n rule: showNat.induct)
  case (1 n)
  show ?case
  proof (cases "n < 10")
    case True
    then show ?thesis
      by (subst (1 2 3) showNat.simps)
         (simp add: isDigit_digitChar digitValue_digitChar digitsValue_def)
  next
    case False
    have m: "n mod 10 < 10" by simp
    from False "1.IH" show ?thesis
      by (subst (1 2 3) showNat.simps)
         (simp add: isDigit_digitChar [OF m] digitValue_digitChar [OF m] digitsValue_snoc)
  qed
qed

lemma isDigit_not_space: "isDigit c \<Longrightarrow> \<not> isWhiteSpace c"
  by (auto simp: isDigit_def isWhiteSpace_def)

lemma isDigit_not_sign: "isDigit c \<Longrightarrow> c \<noteq> CHR ''-'' \<and> c \<noteq> CHR ''+''"
  by (auto simp: isDigit_def)

lemma splitRadix_digits: "\<forall>c \<in> set ds. isDigit c \<Longrightarrow> splitRadix ds = (10, ds)"
  by (auto simp: splitRadix_def isDigit_def split: list.splits)

lemma parseInt_digits:
  assumes "ds \<noteq> []" and "\<forall>c \<in> set ds. isDigit c"
  shows "parseInt ds = Num (of_int (int (digitsValue 10 ds)))"
    and "parseInt (CHR ''-'' # ds) = Num (of_int (- int (digitsValue 10 ds)))"
proof -
  from assms obtain c cs where ds: "ds = c # cs" and c: "isDigit c"
    by (cases ds) auto
  have tw: "takeWhile isDigit ds = ds"
    using assms(2) by (simp add: takeWhile_eq_all_conv)
  have sp: "splitSign ds = (False, ds)"
    using isDigit_not_sign [OF c] by (simp add: splitSign_def ds)
  have dw: "dropWhile isWhiteSpace ds = ds"
    using isDigit_not_space [OF c] by (simp add: ds)
  show "parseInt ds = Num (of_int (int (digitsValue 10 ds)))"
    using assms(1) by (simp add: parseInt_def dw sp splitRadix_digits [OF assms(2)] tw)
  have "\<not> isWhiteSpace CHR ''-''" by (simp add: isWhiteSpace_def)
  then show "parseInt (CHR ''-'' # ds) = Num (of_int (- int (digitsValue 10 ds)))"
    using assms(1) by (simp add: parseInt_def splitSign_def splitRadix_digits [OF assms(2)] tw)
qed

lemma parseInt_showInt: "parseInt (showInt u) = Num (of_int u)"
proof (cases "u < 0")
  case True
  then show ?thesis
    using parseInt_digits(2) [of "showNat (nat (- u))"] showNat_props [of "nat (- u)"]
    by (simp add: showInt_def)
next
  case False
  then show ?thesis
    using parseInt_digits(1) [of "showNat (nat u)"] showNat_props [of "nat u"]
    by (simp add: showInt_def)
qed

subsection \<open>Two swaps, at times 0 and 300\<close>

lemma digitChar_table: "map digitChar [0, 1, 2, 3, 4, 5, 6, 7, 8, 9] = ''0123456789''"
  by code_simp

lemma digitChar_0: "digitChar 0 = CHR ''0''" and digitChar_3: "digitChar 3 = CHR ''3''"
  using digitChar_table by simp_all

lemma showInt_0: "showInt 0 = ''0''"
  by (simp add: showInt_def showNat.simps digitChar_0)

lemma unixTime_0: "unixTime ''0'' = Some 0"
  by (simp add: unixTime_def parseInt_def splitSign_def splitRadix_def isWhiteSpace_def
      isDigit_def digitsValue_def digitValue_def)



lemma isArrayIndex_0: "isArrayIndex ''0''"
  by (simp add: isArrayIndex_def isDigit_def digitsValue_def digitValue_def)

lemma parseInt_0: "parseInt ''0'' = Num 0"
  using parseInt_showInt [of 0] by (simp add: showInt_0)
















section \<open>The totals of the buckets, in double precision\<close>

subsection \<open>The buckets, whatever the arithmetic\<close>

lemma totalAmountUSD_with_exact: "totalAmountUSD_with (+) parseFloat chunk = totalAmountUSD chunk"
  by (simp add: totalAmountUSD_with_def totalAmountUSD_def)

lemma aggregateLoop_with_exact:
  "aggregateLoop_with (+) parseFloat swaps i acc = aggregateLoop swaps i acc"
proof (induction swaps i acc rule: aggregateLoop.induct)
  case (1 swaps i acc)
  show ?case
  proof (cases "i < length swaps")
    case True
    then show ?thesis
      using "1.IH" [OF True refl]
      by (subst aggregateLoop_with.simps, subst aggregateLoop.simps)
         (simp add: Let_def totalAmountUSD_with_exact)
  next
    case False
    then show ?thesis
      by (subst aggregateLoop_with.simps, subst aggregateLoop.simps) simp
  qed
qed

lemma aggregateData_with_exact: "aggregateData_with (+) parseFloat swaps = aggregateData swaps"
  by (simp add: aggregateData_with_def aggregateData_def aggregateLoop_with_exact)

lemma reducer_with_exact: "reducer_with (+) parseFloat tz = reducer tz"
  by (intro ext) (simp add: reducer_with_def reducer_def)

lemma chartData_with_exact: "chartData_with (+) parseFloat tz swaps = chartData tz swaps"
  by (simp add: chartData_with_def chartData_def aggregatedData_with_def aggregatedData_def
      reducer_with_exact)



lemma modify_append_absent:
  "k \<notin> fst ` set obj \<Longrightarrow> modify k f (obj @ [(k, v)]) = obj @ [(k, f v)]"
  by (induction obj) auto

lemma modify_map_distinct:
  "distinct ks \<Longrightarrow>
     modify k f (map (\<lambda>k'. (k', g k')) ks) = map (\<lambda>k'. (k', if k' = k then f (g k') else g k')) ks"
  by (induction ks) auto

lemma map_of_map_keys: "map_of (map (\<lambda>k'. (k', g k')) ks) k = None \<longleftrightarrow> k \<notin> set ks"
  by (induction ks) auto

lemma keysInOrder_snoc:
  "keysInOrder tz (xs @ [s])
     = (if timeKey tz s \<in> set (keysInOrder tz xs) then keysInOrder tz xs
        else keysInOrder tz xs @ [timeKey tz s])"
  by (simp add: keysInOrder_def)

lemma set_keysInOrder: "set (keysInOrder tz xs) = timeKey tz ` set xs"
  by (simp add: keysInOrder_def)

lemma distinct_keysInOrder: "distinct (keysInOrder tz xs)"
  by (simp add: keysInOrder_def)

lemma bucketOf_snoc_other:
  "timeKey tz s \<noteq> k \<Longrightarrow> bucketOf add pf tz (xs @ [s]) k = bucketOf add pf tz xs k"
  by (simp add: bucketOf_def)

lemma bucketOf_snoc_same:
  "bucketOf add pf tz (xs @ [s]) (timeKey tz s)
     = \<lparr>totalAmount = add (totalAmount (bucketOf add pf tz xs (timeKey tz s))) (pf (amountUSD s)),
        bucket_count = bucket_count (bucketOf add pf tz xs (timeKey tz s)) + 1\<rparr>"
  by (simp add: bucketOf_def totalAmountUSD_with_def)

lemma bucketOf_absent:
  "k \<notin> timeKey tz ` set xs \<Longrightarrow> bucketOf add pf tz xs k = \<lparr>totalAmount = 0, bucket_count = 0\<rparr>"
proof -
  assume "k \<notin> timeKey tz ` set xs"
  then have "filter (\<lambda>swap. timeKey tz swap = k) xs = []"
    by (auto simp: filter_empty_conv)
  then show ?thesis by (simp add: bucketOf_def totalAmountUSD_with_def)
qed

lemma aggregatedData_with_buckets:
  "aggregatedData_with add pf tz swaps
     = map (\<lambda>k. (k, bucketOf add pf tz swaps k)) (keysInOrder tz swaps)"
proof (induction swaps rule: rev_induct)
  case Nil
  then show ?case by (simp add: aggregatedData_with_def keysInOrder_def)
next
  case (snoc s xs)
  define k0 where "k0 = timeKey tz s"
  define ks where "ks = keysInOrder tz xs"
  define obj where "obj = map (\<lambda>k. (k, bucketOf add pf tz xs k)) ks"
  have step: "aggregatedData_with add pf tz (xs @ [s]) = reducer_with add pf tz obj s"
    using snoc.IH by (simp add: aggregatedData_with_def obj_def ks_def)
  have dist: "distinct ks" unfolding ks_def by (rule distinct_keysInOrder)
  have keys: "fst ` set obj = set ks" unfolding obj_def by force
  show ?case
  proof (cases "k0 \<in> set ks")
    case True
    have mo: "map_of obj k0 \<noteq> None"
      using True unfolding obj_def by (simp add: map_of_map_keys)
    have r: "reducer_with add pf tz obj s
          = modify k0 (\<lambda>b. b\<lparr>bucket_count := bucket_count b + 1\<rparr>)
              (modify k0 (\<lambda>b. b\<lparr>totalAmount := add (totalAmount b) (pf (amountUSD s))\<rparr>) obj)"
      using mo by (auto simp: reducer_with_def Let_def k0_def)
    have "reducer_with add pf tz obj s
          = map (\<lambda>k. (k, if k = k0 then bucketOf add pf tz (xs @ [s]) k0
                          else bucketOf add pf tz xs k)) ks"
      using dist
      by (subst r)
         (simp add: obj_def modify_map_distinct bucketOf_def totalAmountUSD_with_def k0_def
            cong: if_cong)
    also have "\<dots> = map (\<lambda>k. (k, bucketOf add pf tz (xs @ [s]) k)) ks"
      by (rule map_cong) (auto simp: bucketOf_snoc_other k0_def)
    finally show ?thesis
      using True unfolding step by (simp add: keysInOrder_snoc ks_def k0_def)
  next
    case False
    have mo: "map_of obj k0 = None"
      using False unfolding obj_def by (simp add: map_of_map_keys)
    have nk: "k0 \<notin> fst ` set obj" using False keys by simp
    have ab: "bucketOf add pf tz xs k0 = \<lparr>totalAmount = 0, bucket_count = 0\<rparr>"
      using False unfolding ks_def k0_def set_keysInOrder by (rule bucketOf_absent)
    have r: "reducer_with add pf tz obj s
          = modify k0 (\<lambda>b. b\<lparr>bucket_count := bucket_count b + 1\<rparr>)
              (modify k0 (\<lambda>b. b\<lparr>totalAmount := add (totalAmount b) (pf (amountUSD s))\<rparr>)
                 (obj @ [(k0, \<lparr>totalAmount = 0, bucket_count = 0\<rparr>)]))"
      using mo by (simp add: reducer_with_def Let_def k0_def put_absent)
    have bs: "bucketOf add pf tz (xs @ [s]) k0
          = \<lparr>totalAmount = add 0 (pf (amountUSD s)), bucket_count = 1\<rparr>"
      using bucketOf_snoc_same [of add pf tz xs s] ab by (simp add: k0_def)
    have e1: "reducer_with add pf tz obj s = obj @ [(k0, bucketOf add pf tz (xs @ [s]) k0)]"
      using nk by (subst r, subst bs) (simp add: modify_append_absent)
    have e2: "obj = map (\<lambda>k. (k, bucketOf add pf tz (xs @ [s]) k)) ks"
      unfolding obj_def
    proof (intro map_cong refl)
      fix k assume "k \<in> set ks"
      with False have "timeKey tz s \<noteq> k" by (auto simp: k0_def)
      then show "(k, bucketOf add pf tz xs k) = (k, bucketOf add pf tz (xs @ [s]) k)"
        by (simp add: bucketOf_snoc_other)
    qed
    have "aggregatedData_with add pf tz (xs @ [s])
          = map (\<lambda>k. (k, bucketOf add pf tz (xs @ [s]) k)) ks
              @ [(k0, bucketOf add pf tz (xs @ [s]) k0)]"
      unfolding step e1 by (subst e2) (rule refl)
    then show ?thesis
      using False by (simp add: keysInOrder_snoc ks_def k0_def)
  qed
qed






subsection \<open>Rounding to a double\<close>




















subsection \<open>The list of 102 swaps\<close>
















lemma twoBucketExample_chunks:
  "chunks twoBucketExample 0
     = [replicate 99 (mkSwap ''0'' ''600'') @ [mkSwap ''0.1'' ''600''],
        [mkSwap ''0.2'' ''0'', mkSwap ''0.3'' ''0'']]"
  by (simp add: twoBucketExample_def chunks.simps [of _ 0] chunks.simps [of _ 100]
      chunks.simps [of _ 200] slice_def)





lemma digitChar_6: "digitChar 6 = CHR ''6''"
  using digitChar_table by simp

lemma showInt_600000: "showInt 600000 = ''600000''"
  by (simp add: showInt_def showNat.simps digitChar_0 digitChar_6)

lemma unixTime_600: "unixTime ''600'' = Some 600"
  by (simp add: unixTime_def parseInt_def splitSign_def splitRadix_def isWhiteSpace_def
      isDigit_def digitsValue_def digitValue_def)

lemma isArrayIndex_600000: "isArrayIndex ''600000''"
  by (simp add: isArrayIndex_def isDigit_def digitsValue_def digitValue_def)

lemma timeKey_600: "timeKey 0 (mkSwap a ''600'') = ''600000''"
  using timeKey_aligned [of 0 "mkSwap a ''600''" 600]
  by (simp add: mkSwap_def unixTime_600 showInt_600000)

lemma timeKey_0: "timeKey 0 (mkSwap a ''0'') = ''0''"
  using timeKey_aligned [of 0 "mkSwap a ''0''" 0]
  by (simp add: mkSwap_def unixTime_0 showInt_0)

lemma remdups_replicate_one: "0 < n \<Longrightarrow> remdups (replicate n x) = [x]"
  by (induction n) auto

lemma twoBucketExample_keys: "keysInOrder 0 twoBucketExample = [''600000'', ''0'']"
  by (simp add: keysInOrder_def twoBucketExample_def timeKey_600 timeKey_0 remdups_replicate_one)


lemma twoBucketExample_object:
  "aggregatedData_with add pf 0 twoBucketExample
     = [(''600000'',
         \<lparr>totalAmount = totalAmountUSD_with add pf
                           (replicate 99 (mkSwap ''0'' ''600'') @ [mkSwap ''0.1'' ''600'']),
          bucket_count = 100\<rparr>),
        (''0'',
         \<lparr>totalAmount = totalAmountUSD_with add pf [mkSwap ''0.2'' ''0'', mkSwap ''0.3'' ''0''],
          bucket_count = 2\<rparr>)]"
  unfolding aggregatedData_with_buckets twoBucketExample_keys
  by (simp add: bucketOf_def twoBucketExample_def timeKey_600 timeKey_0)

lemma twoBucketExample_chart:
  "chartData_with add pf 0 twoBucketExample
     = [\<lparr>point_x = Date 0,
          point_y = totalAmountUSD_with add pf [mkSwap ''0.2'' ''0'', mkSwap ''0.3'' ''0''],
          point_count = 2\<rparr>,
        \<lparr>point_x = Date 600000,
          point_y = totalAmountUSD_with add pf
                      (replicate 99 (mkSwap ''0'' ''600'') @ [mkSwap ''0.1'' ''600'']),
          point_count = 100\<rparr>]"
proof -
  have p1: "parseInt ''600000'' = Num 600000"
    using parseInt_showInt [of 600000] by (simp add: showInt_600000)
  have d1: "new_Date (Num 600000) = Date 600000"
    using TimeClip_of_int [of 600000] by (simp add: new_Date_def)
  have d0: "new_Date (Num 0) = Date 0"
    using TimeClip_of_int [of 0] by (simp add: new_Date_def)
  have v: "digitsValue 10 ''600000'' = 600000" "digitsValue 10 ''0'' = 0"
    by (simp_all add: digitsValue_def digitValue_def isDigit_def)
  show ?thesis
    by (simp add: chartData_with_def twoBucketExample_object Object_entries_def
        isArrayIndex_600000 isArrayIndex_0 v p1 parseInt_0 d1 d0 Array_sort_def notAfter_def
        date_minus_def getTime_def num_minus_def)
qed





section \<open>The order of the buckets\<close>

subsection \<open>Buckets of 10 minutes: sorted\<close>

lemma keys_reducer: "fst ` set (reducer tz acc s) = insert (timeKey tz s) (fst ` set acc)"
proof -
  have m: "fst ` set (modify k f obj) = fst ` set obj" for k and f :: "bucket \<Rightarrow> bucket" and obj
    using map_fst_modify [of k f obj] by (metis set_map)
  show ?thesis
  proof (cases "map_of acc (timeKey tz s) = None")
    case True
    then show ?thesis
      by (simp add: reducer_def Let_def m put_absent)
  next
    case False
    then have "timeKey tz s \<in> fst ` set acc"
      by (simp add: map_of_eq_None_iff)
    with False show ?thesis
      by (auto simp add: reducer_def Let_def m)
  qed
qed

lemma keys_foldl_reducer:
  "fst ` set (foldl (reducer tz) acc swaps) = fst ` set acc \<union> timeKey tz ` set swaps"
  by (induction swaps arbitrary: acc) (auto simp: keys_reducer)

lemma keys_aggregatedData: "fst ` set (aggregatedData tz swaps) = timeKey tz ` set swaps"
  by (simp add: aggregatedData_def keys_foldl_reducer)

lemma set_Object_entries: "set (Object_entries obj) = set obj"
  using mset_Object_entries [of obj] by (rule mset_eq_setD)

lemma set_insertSorted: "set (insertSorted cmp a xs) = insert a (set xs)"
  by (induction xs) auto

lemma set_Array_sort: "set (Array_sort cmp xs) = set xs"
  using mset_Array_sort [of cmp xs] by (rule mset_eq_setD)

lemma notAfter_dates:
  assumes "point_x a = Date u" and "point_x b = Date v"
  shows "notAfter (\<lambda>a b. date_minus (point_x a) (point_x b)) a b \<longleftrightarrow> u \<le> v"
  using assms by (simp add: notAfter_def date_minus_def getTime_def num_minus_def)

lemma sorted_insertSorted:
  assumes "\<forall>p \<in> set (a # xs). point_x p \<noteq> Invalid_Date"
    and "sorted (map (\<lambda>p. dateValue (point_x p)) xs)"
  shows "sorted (map (\<lambda>p. dateValue (point_x p))
           (insertSorted (\<lambda>a b. date_minus (point_x a) (point_x b)) a xs))"
  using assms
proof (induction xs)
  case Nil
  then show ?case by simp
next
  case (Cons b bs)
  have va: "point_x a \<noteq> Invalid_Date" and vb: "point_x b \<noteq> Invalid_Date"
    using Cons.prems(1) by simp_all
  obtain u where u: "point_x a = Date u"
    using va by (cases "point_x a") simp_all
  obtain v where v: "point_x b = Date v"
    using vb by (cases "point_x b") simp_all
  note uv = u v
  show ?case
  proof (cases "u \<le> v")
    case True
    then show ?thesis
      using Cons.prems(2) uv notAfter_dates [OF uv]
      by (fastforce simp: dateValue_def)
  next
    case False
    have "sorted (map (\<lambda>p. dateValue (point_x p))
           (insertSorted (\<lambda>a b. date_minus (point_x a) (point_x b)) a bs))"
      using Cons.IH Cons.prems by simp
    then show ?thesis
      using False Cons.prems(2) uv notAfter_dates [OF uv]
      by (auto simp: dateValue_def set_insertSorted)
  qed
qed

lemma sorted_Array_sort:
  "\<forall>p \<in> set xs. point_x p \<noteq> Invalid_Date \<Longrightarrow>
     sorted (map (\<lambda>p. dateValue (point_x p))
       (Array_sort (\<lambda>a b. date_minus (point_x a) (point_x b)) xs))"
proof (induction xs)
  case Nil
  then show ?case by (simp add: Array_sort_def)
next
  case (Cons a xs)
  have "sorted (map (\<lambda>p. dateValue (point_x p))
         (insertSorted (\<lambda>a b. date_minus (point_x a) (point_x b)) a
            (Array_sort (\<lambda>a b. date_minus (point_x a) (point_x b)) xs)))"
    using Cons by (intro sorted_insertSorted) (simp_all add: set_Array_sort)
  then show ?case by (simp add: Array_sort_def)
qed

lemma ascending_Array_sort:
  assumes "\<forall>p \<in> set xs. point_x p \<noteq> Invalid_Date"
  shows "ascending (map point_x (Array_sort (\<lambda>a b. date_minus (point_x a) (point_x b)) xs))"
  using assms sorted_Array_sort [OF assms]
  by (auto simp: ascending_def set_Array_sort comp_def)

lemma chartData_valid:
  assumes "\<forall>s \<in> set swaps. unixTime (timestamp s) \<noteq> None"
  shows "\<forall>p \<in> set (map (\<lambda>(ts, d). \<lparr>point_x = new_Date (parseInt ts), point_y = totalAmount d,
                          point_count = bucket_count d\<rparr>)
          (Object_entries (aggregatedData tz swaps))). point_x p \<noteq> Invalid_Date"
proof -
  have "new_Date (parseInt k) \<noteq> Invalid_Date" if "(k, b) \<in> set (aggregatedData tz swaps)" for k b
  proof -
    from that have "k \<in> fst ` set (aggregatedData tz swaps)" by force
    then obtain s where s: "s \<in> set swaps" "k = timeKey tz s"
      unfolding keys_aggregatedData by auto
    with assms obtain t where t: "unixTime (timestamp s) = Some t" by auto
    show ?thesis
      using timeKey_unixTime [OF t, of tz] s(2)
      by (simp add: parseInt_showInt new_Date_def TimeClip_of_int)
  qed
  then show ?thesis
    by (auto simp: set_Object_entries)
qed

lemma chartData_ascending:
  assumes "\<forall>s \<in> set swaps. unixTime (timestamp s) \<noteq> None"
  shows "ascending (map point_x (chartData tz swaps))"
  unfolding chartData_def by (rule ascending_Array_sort) (rule chartData_valid [OF assms])

subsection \<open>Buckets of 100 swaps: in the order of the list\<close>

lemma ToInteger_mono: "r \<le> s \<Longrightarrow> ToInteger r \<le> ToInteger s"
proof -
  assume rs: "r \<le> s"
  show ?thesis
  proof (cases "0 \<le> r")
    case True
    with rs show ?thesis by (simp add: ToInteger_def floor_mono)
  next
    case False
    show ?thesis
    proof (cases "0 \<le> s")
      case True
      have a: "\<lceil>r\<rceil> \<le> 0" using False by (simp add: ceiling_le_iff)
      have b: "0 \<le> \<lfloor>s\<rfloor>" using True by simp
      have "ToInteger r = \<lceil>r\<rceil>" "ToInteger s = \<lfloor>s\<rfloor>"
        using False True by (simp_all add: ToInteger_def)
      then show ?thesis using a b by linarith
    next
      case s: False
      with False rs show ?thesis by (simp add: ToInteger_def ceiling_mono)
    qed
  qed
qed

lemma sum_list_lower: "\<forall>u \<in> set us. lo \<le> u \<Longrightarrow> lo * int (length us) \<le> sum_list us"
  by (induction us) (auto simp: algebra_simps)

lemma sum_list_upper: "\<forall>u \<in> set us. u \<le> hi \<Longrightarrow> sum_list us \<le> hi * int (length us)"
  by (induction us) (auto simp: algebra_simps)

lemma average_lower:
  assumes "us \<noteq> []" and "\<forall>u \<in> set us. lo \<le> u"
  shows "real_of_int lo \<le> real_of_int (sum_list us) / real (length us)"
proof -
  have n: "0 < real (length us)" using assms(1) by simp
  have "real_of_int (lo * int (length us)) \<le> real_of_int (sum_list us)"
    using sum_list_lower [OF assms(2)] by (simp only: of_int_le_iff)
  then have "real_of_int lo * real (length us) \<le> real_of_int (sum_list us)" by simp
  then show ?thesis
    using n by (simp add: pos_le_divide_eq)
qed

lemma average_upper:
  assumes "us \<noteq> []" and "\<forall>u \<in> set us. u \<le> hi"
  shows "real_of_int (sum_list us) / real (length us) \<le> real_of_int hi"
proof -
  have n: "0 < real (length us)" using assms(1) by simp
  have "real_of_int (sum_list us) \<le> real_of_int (hi * int (length us))"
    using sum_list_upper [OF assms(2)] by (simp only: of_int_le_iff)
  then have "real_of_int (sum_list us) \<le> real_of_int hi * real (length us)" by simp
  then show ?thesis
    using n by (simp add: pos_divide_le_eq)
qed

lemma avgTime_mono:
  assumes "c \<noteq> []" and "d \<noteq> []" and "\<forall>a \<in> set c. \<forall>b \<in> set d. b \<le> a"
  shows "avgTime d \<le> avgTime c"
proof -
  define v where "v = Max (set d)"
  have dv: "\<forall>b \<in> set d. b \<le> v" unfolding v_def by simp
  have "v \<in> set d" unfolding v_def using assms(2) by simp
  then have cv: "\<forall>a \<in> set c. v \<le> a" using assms(3) by blast
  have "real_of_int (sum_list d) / real (length d) \<le> real_of_int v"
    by (rule average_upper [OF assms(2) dv])
  also have "\<dots> \<le> real_of_int (sum_list c) / real (length c)"
    by (rule average_lower [OF assms(1) cv])
  finally have "real_of_int (sum_list d) / real (length d) * 1000
      \<le> real_of_int (sum_list c) / real (length c) * 1000"
    by (rule mult_right_mono) simp
  then show ?thesis
    unfolding avgTime_def by (rule ToInteger_mono)
qed

lemma sum_parseInt:
  "map (\<lambda>s. unixTime (timestamp s)) c = map Some us \<Longrightarrow>
     sum_list (map (\<lambda>s. parseInt (timestamp s)) c) = Num (real_of_int (sum_list us))"
proof (induction c arbitrary: us)
  case Nil
  then show ?case by (simp add: zero_number_def)
next
  case (Cons s c)
  then obtain u us' where us: "us = u # us'" "unixTime (timestamp s) = Some u"
    "map (\<lambda>s. unixTime (timestamp s)) c = map Some us'"
    by (cases us) auto
  show ?case
    using Cons.IH [OF us(3)] unixTime_Some(1) [OF us(2)]
    by (simp add: us(1) plus_number_def)
qed

lemma bucketPoint_date:
  assumes "c \<noteq> []" and "map (\<lambda>s. unixTime (timestamp s)) c = map Some us"
  shows "point_x (bucketPoint c) = Date (avgTime us)"
proof -
  have len: "length us = length c" using assms(2) by (metis length_map)
  then have ne: "us \<noteq> []" using assms(1) by auto
  have rng: "\<forall>u \<in> set us. - 8640000000000 \<le> u" "\<forall>u \<in> set us. u \<le> 8640000000000"
  proof -
    have "\<exists>s :: swap. unixTime (timestamp s) = Some u" if "u \<in> set us" for u
    proof -
      from that have "Some u \<in> set (map (\<lambda>s. unixTime (timestamp s)) c)"
        unfolding assms(2) by simp
      then have "Some u \<in> (\<lambda>s. unixTime (timestamp s)) ` set c"
        by simp
      then show ?thesis
      proof (rule imageE)
        fix s :: swap
        assume "Some u = unixTime (timestamp s)"
        then have "unixTime (timestamp s) = Some u" by (rule sym)
        then show ?thesis by (rule exI)
      qed
    qed
    then show "\<forall>u \<in> set us. - 8640000000000 \<le> u" "\<forall>u \<in> set us. u \<le> 8640000000000"
      using unixTime_Some(2,3) by fastforce+
  qed
  define q where "q = real_of_int (sum_list us) / real (length us)"
  have q: "- 8640000000000 \<le> q" "q \<le> 8640000000000"
    using average_lower [OF ne rng(1)] average_upper [OF ne rng(2)] unfolding q_def by simp_all
  then have clip: "\<not> 8640000000000000 < \<bar>q * 1000\<bar>" by linarith
  have "avgTimestamp c = Num q"
    using assms(1) by (simp add: avgTimestamp_sum_list sum_parseInt [OF assms(2)] num_divide_def
        q_def len)
  then show ?thesis
    using clip by (simp add: bucketPoint_def num_times_def new_Date_def TimeClip_def avgTime_def
        q_def)
qed

lemma sorted_wrt_blocks:
  "sorted_wrt R (concat cs) \<Longrightarrow> sorted_wrt (\<lambda>c d. \<forall>a \<in> set c. \<forall>b \<in> set d. R a b) cs"
  by (induction cs) (auto simp: sorted_wrt_append)

lemma aggregateData_descending:
  assumes "map (\<lambda>s. unixTime (timestamp s)) swaps = map Some ts" and "sorted (rev ts)"
  shows "descending (map point_x (aggregateData swaps))"
proof -
  have cts: "concat (chunks ts 0) = ts" by (simp add: concat_chunks)
  have "sorted_wrt (\<lambda>a b. b \<le> a) ts"
    using assms(2) by (simp add: sorted_wrt_rev)
  then have blocks: "sorted_wrt (\<lambda>c d. \<forall>a \<in> set c. \<forall>b \<in> set d. b \<le> a) (chunks ts 0)"
    using sorted_wrt_blocks [of "\<lambda>a b. b \<le> a" "chunks ts 0"] cts by simp
  have "sorted_wrt (\<lambda>c d. avgTime d \<le> avgTime c) (chunks ts 0)"
    using blocks
  proof (rule sorted_wrt_mono_rel [rotated])
    fix c d
    assume "c \<in> set (chunks ts 0)" "d \<in> set (chunks ts 0)"
      "\<forall>a \<in> set c. \<forall>b \<in> set d. b \<le> a"
    then show "avgTime d \<le> avgTime c"
      using chunks_lengths [of c ts 0] chunks_lengths [of d ts 0]
      by (intro avgTime_mono) auto
  qed
  then have srt: "sorted (rev (map avgTime (chunks ts 0)))"
    by (simp add: sorted_wrt_rev sorted_wrt_map rev_map [symmetric] del: rev_map)
  have cm: "map (map (\<lambda>s. unixTime (timestamp s))) (chunks swaps 0) = map (map Some) (chunks ts 0)"
    using map_chunks [of "\<lambda>s. unixTime (timestamp s)" swaps 0] map_chunks [of Some ts 0] assms(1)
    by simp
  have px: "map point_x (aggregateData swaps) = map Date (map avgTime (chunks ts 0))"
  proof -
    have "list_all2 (\<lambda>c us. map (\<lambda>s. unixTime (timestamp s)) c = map Some us)
            (chunks swaps 0) (chunks ts 0)"
      using cm by (simp add: list_all2_conv_all_nth list_eq_iff_nth_eq)
    then have "list_all2 (\<lambda>c us. point_x (bucketPoint c) = Date (avgTime us))
            (chunks swaps 0) (chunks ts 0)"
    proof (rule list.rel_mono_strong)
      fix c us
      assume "c \<in> set (chunks swaps 0)" and "us \<in> set (chunks ts 0)"
        and "map (\<lambda>s. unixTime (timestamp s)) c = map Some us"
      then show "point_x (bucketPoint c) = Date (avgTime us)"
        using chunks_lengths [of c swaps 0] by (intro bucketPoint_date) auto
    qed
    then show ?thesis
      by (simp add: aggregateData_chunks list_all2_conv_all_nth list_eq_iff_nth_eq)
  qed
  show ?thesis
    unfolding px descending_def using srt by (auto simp: comp_def dateValue_def)
qed

subsection \<open>A descending list of 101 swaps\<close>

lemma unixTime_200: "unixTime ''200'' = Some 200"
  by (simp add: unixTime_def parseInt_def splitSign_def splitRadix_def isWhiteSpace_def
      isDigit_def digitsValue_def digitValue_def)

lemma unixTime_100: "unixTime ''100'' = Some 100"
  by (simp add: unixTime_def parseInt_def splitSign_def splitRadix_def isWhiteSpace_def
      isDigit_def digitsValue_def digitValue_def)

lemma descendingExample_chunks:
  "chunks descendingExample 0 = [replicate 100 (mkSwap ''1'' ''200''), [mkSwap ''2'' ''100'']]"
  by (simp add: descendingExample_def chunks.simps [of _ 0] chunks.simps [of _ 100]
      chunks.simps [of _ 200] slice_def)

lemma descendingExample_dates:
  "map point_x (aggregateData descendingExample) = [Date 200000, Date 100000]"
proof -
  have a: "point_x (bucketPoint (replicate 100 (mkSwap ''1'' ''200''))) = Date (avgTime (replicate 100 200))"
    by (rule bucketPoint_date) (simp_all add: mkSwap_def unixTime_200)
  have b: "point_x (bucketPoint [mkSwap ''2'' ''100'']) = Date (avgTime [100])"
    by (rule bucketPoint_date) (simp_all add: mkSwap_def unixTime_100)
  have c: "avgTime (replicate 100 200) = 200000" "avgTime [100] = 100000"
    by (simp_all add: avgTime_def sum_list_replicate ToInteger_def)
  show ?thesis
    by (simp add: aggregateData_chunks descendingExample_chunks a b c)
qed

subsection \<open>A descending list with two buckets under each policy\<close>

lemma twoBucketExample_count_dates:
  "map point_x (aggregateData twoBucketExample) = [Date 600000, Date 0]"
proof -
  have u: "map (\<lambda>s. unixTime (timestamp s))
             (replicate 99 (mkSwap ''0'' ''600'') @ [mkSwap ''0.1'' ''600''])
           = map Some (replicate 99 600 @ [600])"
    by (simp add: mkSwap_def unixTime_600)
  have a: "point_x (bucketPoint (replicate 99 (mkSwap ''0'' ''600'') @ [mkSwap ''0.1'' ''600'']))
           = Date (avgTime (replicate 99 600 @ [600]))"
    using u by (intro bucketPoint_date) simp_all
  have b: "point_x (bucketPoint [mkSwap ''0.2'' ''0'', mkSwap ''0.3'' ''0'']) = Date (avgTime [0, 0])"
    by (rule bucketPoint_date) (simp_all add: mkSwap_def unixTime_0)
  have c: "avgTime (replicate 99 600 @ [600]) = 600000" "avgTime [0, 0] = 0"
    by (simp_all add: avgTime_def sum_list_replicate ToInteger_def)
  show ?thesis
    using aggregateData_chunks [of twoBucketExample]
    by (simp add: twoBucketExample_chunks a b c)
qed

lemma twoBucketExample_time_dates:
  "map point_x (chartData 0 twoBucketExample) = [Date 0, Date 600000]"
  using twoBucketExample_chart [of "(+)" parseFloat] by (simp add: chartData_with_exact)

lemma twoBucketExample_times:
  "map (\<lambda>s. unixTime (timestamp s)) twoBucketExample = map Some (replicate 99 600 @ [600, 0, 0])"
  by (simp add: twoBucketExample_def mkSwap_def unixTime_600 unixTime_0)

lemma twoBucketExample_sorted: "sorted (rev (replicate 99 600 @ [600, 0, 0 :: int]))"
  by (simp add: sorted_append)

text \<open>
  Claim C2, as the code has it. The timestamps are Unix times \<open>ts\<close> of dates the
  platform can represent, in descending order, as the query returns them. The 10-minute
  buckets are handed to the chart in ascending order of time, in every time zone: they
  are sorted. The 100-swap buckets are not sorted: they come in the order of the chunks
  of the list, so that their dates descend. The 102 swaps of \<open>twoBucketExample\<close> make two
  buckets under each policy: dated 0 s then 600 s by 10 minutes, 600 s then 0 s by 100
  swaps.
\<close>

theorem C2_bucket_order:
  assumes "map (\<lambda>s. unixTime (timestamp s)) swaps = map Some ts" and "sorted (rev ts)"
  shows "ascending (map point_x (chartData tz swaps))
       \<and> descending (map point_x (aggregateData swaps))"
proof -
  have "\<forall>s \<in> set swaps. unixTime (timestamp s) \<noteq> None"
  proof
    fix s assume "s \<in> set swaps"
    then have "unixTime (timestamp s) \<in> set (map (\<lambda>s. unixTime (timestamp s)) swaps)"
      by simp
    then show "unixTime (timestamp s) \<noteq> None"
      unfolding assms(1) by auto
  qed
  then show ?thesis
    using chartData_ascending aggregateData_descending [OF assms] by blast
qed

theorem C2_bucket_order_witness:
  "ascending (map point_x (chartData 0 twoBucketExample))
   \<and> descending (map point_x (aggregateData twoBucketExample))
   \<and> map point_x (chartData 0 twoBucketExample) = [Date 0, Date 600000]
   \<and> map point_x (aggregateData twoBucketExample) = [Date 600000, Date 0]"
  using C2_bucket_order [of twoBucketExample "replicate 99 600 @ [600, 0, 0]" 0,
      OF twoBucketExample_times twoBucketExample_sorted]
    twoBucketExample_time_dates twoBucketExample_count_dates
  by blast

text \<open>
  Claim C2 as stated fails for the 100-swap buckets: 100 swaps at time 200 followed by one swap at
  time 100 arrive in descending order, and their two buckets are dated 200 s and 100 s,
  in this order.
\<close>

theorem C2_count_buckets_descend:
  "descendingExample = replicate 100 (mkSwap ''1'' ''200'') @ [mkSwap ''2'' ''100'']
   \<and> unixTime (timestamp (mkSwap ''1'' ''200'')) = Some 200
   \<and> unixTime (timestamp (mkSwap ''2'' ''100'')) = Some 100
   \<and> map point_x (aggregateData descendingExample) = [Date 200000, Date 100000]
   \<and> \<not> ascending (map point_x (aggregateData descendingExample))"
proof -
  have "descendingExample = replicate 100 (mkSwap ''1'' ''200'') @ [mkSwap ''2'' ''100'']"
    by (rule descendingExample_def)
  moreover have "unixTime (timestamp (mkSwap ''1'' ''200'')) = Some 200"
    "unixTime (timestamp (mkSwap ''2'' ''100'')) = Some 100"
    by (simp_all add: mkSwap_def unixTime_200 unixTime_100)
  moreover have "\<not> ascending (map point_x (aggregateData descendingExample))"
    by (simp add: descendingExample_dates ascending_def dateValue_def)
  ultimately show ?thesis
    using descendingExample_dates by simp
qed

section \<open>What the buckets depend on\<close>

lemma amountAndTimestamp_map:
  assumes "map (\<lambda>s. (amountUSD s, timestamp s)) xs = map (\<lambda>s. (amountUSD s, timestamp s)) ys"
  shows "map amountAndTimestamp xs = map amountAndTimestamp ys"
proof -
  define g :: "string \<times> string \<Rightarrow> swap" where
    "g = (\<lambda>(a, t). \<lparr>swap_id = [], amountUSD = a, timestamp = t,
                     token0 = \<lparr>symbol = []\<rparr>, token1 = \<lparr>symbol = []\<rparr>\<rparr>)"
  have r: "map amountAndTimestamp zs = map g (map (\<lambda>s. (amountUSD s, timestamp s)) zs)" for zs
    by (simp add: g_def amountAndTimestamp_def comp_def)
  show ?thesis unfolding r assms by (rule refl)
qed

lemma bucketPoint_amountAndTimestamp: "bucketPoint (map amountAndTimestamp c) = bucketPoint c"
  by (simp add: bucketPoint_def totalAmountUSD_sum_list avgTimestamp_sum_list comp_def
      amountAndTimestamp_def)

lemma aggregateData_amountAndTimestamp: "aggregateData (map amountAndTimestamp xs) = aggregateData xs"
  by (simp add: aggregateData_chunks map_chunks comp_def bucketPoint_amountAndTimestamp)

lemma reducer_amountAndTimestamp: "reducer tz acc (amountAndTimestamp s) = reducer tz acc s"
  by (simp add: reducer_def timeKey_def amountAndTimestamp_def)

lemma chartData_amountAndTimestamp: "chartData tz (map amountAndTimestamp xs) = chartData tz xs"
  by (simp add: chartData_def aggregatedData_def foldl_map reducer_amountAndTimestamp)

lemma Object_entries_single: "Object_entries [(k, b)] = [(k, b)]"
  by (simp add: Object_entries_def)

lemma chartData_single:
  assumes "unixTime (timestamp s) = Some t"
  shows "chartData tz [s] = [\<lparr>point_x = Date (roundedTime tz (t * 1000)),
                             point_y = parseFloat (amountUSD s), point_count = 1\<rparr>]"
  using timeKey_unixTime [OF assms, of tz]
  by (simp add: chartData_def aggregatedData_def reducer_def Let_def Object_entries_single
      Array_sort_def parseInt_showInt new_Date_def TimeClip_of_int)

lemma chartData_zone_example:
  "chartData 0 [mkSwap ''10'' ''0'']
     = [\<lparr>point_x = Date 0, point_y = parseFloat ''10'', point_count = 1\<rparr>]"
  "chartData 765 [mkSwap ''10'' ''0'']
     = [\<lparr>point_x = Date (- 300000), point_y = parseFloat ''10'', point_count = 1\<rparr>]"
  using chartData_single [of "mkSwap ''10'' ''0''" 0 0] chartData_single [of "mkSwap ''10'' ''0''" 0 765]
  by (simp_all add: mkSwap_def unixTime_0 roundedTime_eq)

text \<open>
  Claim C10, as the code has it. Two lists of swaps that agree, place by place, in their
  amounts and timestamps get the same buckets: of 100 swaps, and of 10 minutes in a given
  time zone. Identifiers and token symbols play no part.
\<close>

theorem C10_depends_on_amount_and_timestamp:
  assumes "map (\<lambda>s. (amountUSD s, timestamp s)) xs = map (\<lambda>s. (amountUSD s, timestamp s)) ys"
  shows "aggregateData xs = aggregateData ys \<and> chartData tz xs = chartData tz ys"
proof -
  have m: "map amountAndTimestamp xs = map amountAndTimestamp ys"
    by (rule amountAndTimestamp_map [OF assms])
  have "aggregateData xs = aggregateData (map amountAndTimestamp xs)"
    by (simp add: aggregateData_amountAndTimestamp)
  also have "\<dots> = aggregateData ys"
    unfolding m by (rule aggregateData_amountAndTimestamp)
  finally have a: "aggregateData xs = aggregateData ys" .
  have "chartData tz xs = chartData tz (map amountAndTimestamp xs)"
    by (simp add: chartData_amountAndTimestamp)
  also have "\<dots> = chartData tz ys"
    unfolding m by (rule chartData_amountAndTimestamp)
  finally show ?thesis using a by simp
qed

theorem C10_depends_on_amount_and_timestamp_witness:
  "aggregateData [mkSwap ''10'' ''1000'']
     = aggregateData [\<lparr>swap_id = ''0x2'', amountUSD = ''10'', timestamp = ''1000'',
                       token0 = \<lparr>symbol = ''DAI''\<rparr>, token1 = \<lparr>symbol = ''WBTC''\<rparr>\<rparr>]
   \<and> chartData 0 [mkSwap ''10'' ''1000'']
     = chartData 0 [\<lparr>swap_id = ''0x2'', amountUSD = ''10'', timestamp = ''1000'',
                     token0 = \<lparr>symbol = ''DAI''\<rparr>, token1 = \<lparr>symbol = ''WBTC''\<rparr>\<rparr>]"
  by (rule C10_depends_on_amount_and_timestamp) (simp add: mkSwap_def)

text \<open>
  Claim C10 as stated fails for the 10-minute buckets, which depend on the time zone of
  the host:
  the same swap, at time 0, is dated 0 under UTC and -300000 at 765 minutes east.
\<close>

theorem C10_zone_counterexample:
  "chartData 0 [mkSwap ''10'' ''0''] \<noteq> chartData 765 [mkSwap ''10'' ''0'']"
  by (simp add: chartData_zone_example)

section \<open>The sections of the page: empty, failed and short results\<close>

lemma chartData_Nil: "chartData tz [] = []"
  by (simp add: chartData_def aggregatedData_def Object_entries_def Array_sort_def)

text \<open>
  Claim C3. On the empty list of swaps both aggregations give no bucket, and the section
  renders its content with an empty line: it neither fails nor shows an alert. The same
  holds when the query has no data at all.
\<close>

theorem C3_empty_input:
  "aggregateData [] = [] \<and> chartData tz [] = []
   \<and> Swaps fmt \<lparr>loading = False, error = None, data = Some []\<rparr>
       = Inr (Content \<lparr>line_data = [], latest = []\<rparr>)
   \<and> Swaps fmt \<lparr>loading = False, error = None, data = None\<rparr>
       = Inr (Content \<lparr>line_data = [], latest = []\<rparr>)
   \<and> Swaps_10min tz fmt \<lparr>loading = False, error = None, data = Some []\<rparr>
       = Inr (Content \<lparr>line_data = [], latest = []\<rparr>)
   \<and> Swaps_10min tz fmt \<lparr>loading = False, error = None, data = None\<rparr>
       = Inr (Content \<lparr>line_data = [], latest = []\<rparr>)"
  by (simp add: aggregateData_Nil chartData_Nil Swaps_def Swaps_10min_def latestSwaps_def
      latestSwaps_10min_def slice_def)

theorem C3_empty_input_witness:
  "Swaps_10min 0 (\<lambda>t p. []) \<lparr>loading = False, error = None, data = Some []\<rparr>
       = Inr (Content \<lparr>line_data = [], latest = []\<rparr>)"
  using C3_empty_input [of 0 "\<lambda>t p. []"] by (rule conjunct2 [THEN conjunct2, THEN conjunct2, THEN conjunct2, THEN conjunct1])

text \<open>
  Claim C4. A query has failed with the message \<open>m\<close> when it is not loading and its
  error carries \<open>m\<close>. Each of the four sections then returns the error alert, whose
  text ends with \<open>m\<close>: a value, not an exception, and not the content with its
  charts.
\<close>

theorem C4_error_display:
  assumes "failed qs m" and "failed qt m" and "failed qp m" and "failed qd m"
  shows "Swaps fmt qs = Inr (Alert ''error'' (''Error: '' @ m))
     \<and> TokenVolume qt = Inr (Alert ''error'' (''Error: '' @ m))
     \<and> TopPairs qp = Inr (Alert ''error'' (''Error: '' @ m))
     \<and> ProtocolStats fmt qd = Inr (Alert ''error'' (''Error: '' @ m))"
  using assms
  by (auto simp: failed_def Swaps_def TokenVolume_def TopPairs_def ProtocolStats_def
      ErrorMessage_def)

theorem C4_error_display_witness:
  "Swaps (\<lambda>t p. [])
      \<lparr>loading = False, error = Some \<lparr>message = ''Failed to fetch''\<rparr>, data = None\<rparr>
     = Inr (Alert ''error'' (''Error: '' @ ''Failed to fetch''))
   \<and> TokenVolume
      \<lparr>loading = False, error = Some \<lparr>message = ''Failed to fetch''\<rparr>, data = None\<rparr>
     = Inr (Alert ''error'' (''Error: '' @ ''Failed to fetch''))
   \<and> TopPairs
      \<lparr>loading = False, error = Some \<lparr>message = ''Failed to fetch''\<rparr>, data = None\<rparr>
     = Inr (Alert ''error'' (''Error: '' @ ''Failed to fetch''))
   \<and> ProtocolStats (\<lambda>t p. [])
      \<lparr>loading = False, error = Some \<lparr>message = ''Failed to fetch''\<rparr>, data = None\<rparr>
     = Inr (Alert ''error'' (''Error: '' @ ''Failed to fetch''))"
  by (rule C4_error_display) (simp_all add: failed_def)

text \<open>
  Claim C7. The bar chart of the tokens has one label and one value for each token of
  the query's result, in the result's order, whatever its length; likewise the bar chart
  of the pools. Nothing pads a short result to five bars.
\<close>

theorem C7_no_padding:
  "TokenVolume \<lparr>loading = False, error = None, data = Some tokens\<rparr>
     = Inr (Content \<lparr>bar_labels = map token_symbol tokens,
                      bar_data = map (\<lambda>t. parseFloat (token_volumeUSD t)) tokens\<rparr>)
   \<and> length (map token_symbol tokens) = length tokens
   \<and> length (map (\<lambda>t. parseFloat (token_volumeUSD t)) tokens) = length tokens
   \<and> TopPairs \<lparr>loading = False, error = None, data = Some pairs\<rparr>
     = Inr (Content
         \<lparr>bar_labels = map (\<lambda>p. symbol (pool_token0 p) @ ''/'' @ symbol (pool_token1 p)) pairs,
          bar_data = map (\<lambda>p. parseFloat (pool_volumeUSD p)) pairs\<rparr>)
   \<and> length (map (\<lambda>p. symbol (pool_token0 p) @ ''/'' @ symbol (pool_token1 p)) pairs) = length pairs
   \<and> length (map (\<lambda>p. parseFloat (pool_volumeUSD p)) pairs) = length pairs"
  by (simp add: TokenVolume_def TopPairs_def)

theorem C7_no_padding_witness:
  "TokenVolume \<lparr>loading = False, error = None,
       data = Some [\<lparr>token_id = ''0xa'', token_symbol = ''WETH'', token_volumeUSD = ''12.5''\<rparr>]\<rparr>
     = Inr (Content \<lparr>bar_labels = [''WETH''], bar_data = [Num 12.5]\<rparr>)"
  using C7_no_padding
    [of "[\<lparr>token_id = ''0xa'', token_symbol = ''WETH'', token_volumeUSD = ''12.5''\<rparr>]" "[]"]
  by (simp add: parseFloat_def splitSign_def startsWith_def isWhiteSpace_def
        isDigit_def digitsValue_def digitValue_def exponentPart_def)

section \<open>Loading more swaps: the pages in order\<close>

text \<open>
  Claim C8. Loading more swaps gives the prior list followed by the fetched page: the
  prior swaps keep their places, the new ones come after them. Without a fetched page
  nothing changes.
\<close>

theorem C8_load_more_appends:
  "updateQuery page P (Some N) = (page + 1, P @ N)
   \<and> take (length P) (snd (updateQuery page P (Some N))) = P
   \<and> drop (length P) (snd (updateQuery page P (Some N))) = N
   \<and> updateQuery page P None = (page, P)"
  by (simp add: updateQuery_def)

theorem C8_load_more_appends_witness:
  "updateQuery 0 [mkSwap ''10'' ''1001''] (Some [mkSwap ''20'' ''1000''])
     = (0 + 1, [mkSwap ''10'' ''1001''] @ [mkSwap ''20'' ''1000''])"
  using C8_load_more_appends [of 0 "[mkSwap ''10'' ''1001'']" "[mkSwap ''20'' ''1000'']"]
  by (rule conjunct1)

end
